theory Spec2Isabelle
  imports Complex_Main "HOL-Library.Word"
begin

section \<open>Bytes, strings and the runtime's buffer decoders\<close>

text \<open>
  A \<open>Buffer\<close> is a list of bytes. A JavaScript string is represented by its UTF-8
  encoding, one \<open>char\<close> per byte, so \<open>Buffer.from(s, "utf8")\<close> is the bytes of the
  string and \<open>byteLength\<close> is its length. Emptiness and \<open>includes\<close> with an ASCII
  needle read the same on this representation. Indexing a string by position
  (\<open>mediaType[index]\<close> on a scalar media type) is by UTF-16 code unit in the source:
  \<open>string_at\<close> below decodes the bytes to code units first.
\<close>

type_synonym byte = "8 word"
type_synonym buffer = "byte list"

datatype BufferEncoding = Utf8 | Base64 | Hex

text \<open>A value handed to \<open>chunkContent\<close> or \<open>opPush\<close>: \<open>string | Buffer\<close>.\<close>

datatype js_data = Str string | Buf buffer

definition byte_of_char :: "char \<Rightarrow> byte" where
  "byte_of_char c = of_nat (of_char c)"

text \<open>
  The runtime's base64 reader (\<open>Buffer.from(s, "base64")\<close>): both alphabets are
  accepted, characters outside them are skipped, reading stops at the first \<open>=\<close>, and a
  trailing group of two or three characters still yields one or two bytes.
\<close>

definition unbase64 :: "char \<Rightarrow> nat option" where
  "unbase64 c =
     (let n = (of_char c :: nat) in
      if 65 \<le> n \<and> n \<le> 90 then Some (n - 65)
      else if 97 \<le> n \<and> n \<le> 122 then Some (n - 71)
      else if 48 \<le> n \<and> n \<le> 57 then Some (n + 4)
      else if n = 43 \<or> n = 45 then Some 62
      else if n = 47 \<or> n = 95 then Some 63
      else None)"

fun base64_groups :: "nat list \<Rightarrow> buffer" where
  "base64_groups (a # b # c # d # rest) =
     of_nat (a * 4 + b div 16) # of_nat ((b mod 16) * 16 + c div 4) #
     of_nat ((c mod 4) * 64 + d) # base64_groups rest"
| "base64_groups [a, b, c] = [of_nat (a * 4 + b div 16), of_nat ((b mod 16) * 16 + c div 4)]"
| "base64_groups [a, b] = [of_nat (a * 4 + b div 16)]"
| "base64_groups _ = []"

definition base64_decode :: "string \<Rightarrow> buffer" where
  "base64_decode s =
     base64_groups (List.map_filter unbase64 (takeWhile (\<lambda>c. c \<noteq> CHR ''='') s))"

text \<open>
  The runtime's hex reader (\<open>Buffer.from(s, "hex")\<close>): pairs of hex digits, cut at
  the first pair that is not one; an odd last character is dropped.
\<close>

definition unhex :: "char \<Rightarrow> nat option" where
  "unhex c =
     (let n = (of_char c :: nat) in
      if 48 \<le> n \<and> n \<le> 57 then Some (n - 48)
      else if 65 \<le> n \<and> n \<le> 70 then Some (n - 55)
      else if 97 \<le> n \<and> n \<le> 102 then Some (n - 87)
      else None)"

fun hex_decode :: "string \<Rightarrow> buffer" where
  "hex_decode (a # b # rest) =
     (case (unhex a, unhex b) of
        (Some x, Some y) \<Rightarrow> of_nat (x * 16 + y) # hex_decode rest
      | _ \<Rightarrow> [])"
| "hex_decode _ = []"

text \<open>\<open>Buffer.from(data, encoding)\<close>: a Buffer argument is copied, whatever the encoding.\<close>

fun Buffer_from :: "js_data \<Rightarrow> BufferEncoding \<Rightarrow> buffer" where
  "Buffer_from (Buf b) _ = b"
| "Buffer_from (Str s) Utf8 = map byte_of_char s"
| "Buffer_from (Str s) Base64 = base64_decode s"
| "Buffer_from (Str s) Hex = hex_decode s"

text \<open>\<open>buf.subarray(start, end)\<close> for non-negative indices: both are clamped to the length.\<close>

definition subarray :: "buffer \<Rightarrow> nat \<Rightarrow> nat \<Rightarrow> buffer" where
  "subarray b s e =
     take (min e (length b) - min s (length b)) (drop (min s (length b)) b)"

text \<open>\<open>String.prototype.includes\<close>: the needle occurs as a contiguous substring.\<close>

fun string_includes :: "string \<Rightarrow> string \<Rightarrow> bool" where
  "string_includes [] needle = (needle = [])"
| "string_includes (c # cs) needle =
     (take (length needle) (c # cs) = needle \<or> string_includes cs needle)"


text \<open>
  The UTF-16 code units of a string, from its UTF-8 bytes. The bytes are cut into code
  points, a lead byte with its one, two or three continuation bytes. A code point of up
  to three bytes is one code unit, and the string of that unit is these bytes. A code
  point of four bytes is a surrogate pair; half of a pair on its own has no UTF-8 form,
  \<open>Buffer.from\<close> writes the replacement character \<open>EF BF BD\<close> for it, and so does
  this representation. Bytes that are not well-formed UTF-8 stand for no JavaScript
  string.
\<close>

definition utf8_continuation :: "char \<Rightarrow> nat" where
  "utf8_continuation c =
     (let b = (of_char c :: nat) in
      if 0xF0 \<le> b \<and> b < 0xF8 then 3
      else if 0xE0 \<le> b \<and> b < 0xF0 then 2
      else if 0xC0 \<le> b \<and> b < 0xE0 then 1
      else 0)"

fun utf8_code_points :: "string \<Rightarrow> string list" where
  "utf8_code_points [] = []"
| "utf8_code_points (c # cs) =
     (c # take (utf8_continuation c) cs) # utf8_code_points (drop (utf8_continuation c) cs)"

definition replacement_character :: string where
  "replacement_character = [CHR 0xEF, CHR 0xBF, CHR 0xBD]"

definition utf16_units :: "string \<Rightarrow> string list" where
  "utf16_units s =
     concat
       (map (\<lambda>cp. if length cp = 4 then [replacement_character, replacement_character]
                   else [cp])
          (utf8_code_points s))"

text \<open>
  \<open>s[i]\<close>: the string of the code unit at position \<open>i\<close>, or \<open>undefined\<close> when
  the string has no such position.
\<close>

definition string_at :: "string \<Rightarrow> nat \<Rightarrow> string option" where
  "string_at s i = (if i < length (utf16_units s) then Some (utf16_units s ! i) else None)"


section \<open>Errors\<close>

text \<open>
  Every \<open>throw\<close> of the source is a constructor, named after the condition it reports.
  \<open>TypeError\<close> is the runtime's own (a method called on \<open>undefined\<close>);
  \<open>InputIndexTooHigh\<close> is the PSBT library's; \<open>External\<close> is a failure passed through
  from a collaborator (data source, base-class method), with its tag.
\<close>

datatype error =
    MissingField
  | OversizedElement
  | TypeError
  | InvalidOptions
  | NotReady
  | NotBuilt
  | PreviewModeRestricted
  | NoUTXOFound
  | BelowDustLimit
  | NoSelectedUTXOs
  | InvalidRequest
  | NoSpendableUTXOs
  | InvalidScriptPubType
  | UnableToProcessInput
  | InputIndexTooHigh
  | InsufficientBalance int int int
  | NoBalance
  | External string

definition and_then :: "error + 'a \<Rightarrow> ('a \<Rightarrow> error + 'b) \<Rightarrow> error + 'b" where
  "and_then r f = (case r of Inl e \<Rightarrow> Inl e | Inr x \<Rightarrow> f x)"

text \<open>\<open>xs.map(f)\<close> where \<open>f\<close> may throw: the first failure, in array order, ends the map.\<close>

fun map_result :: "('a \<Rightarrow> error + 'b) \<Rightarrow> 'a list \<Rightarrow> error + 'b list" where
  "map_result f [] = Inr []"
| "map_result f (x # xs) =
     and_then (f x) (\<lambda>y. and_then (map_result f xs) (\<lambda>ys. Inr (y # ys)))"


section \<open>The envelope encoder (witness.ts)\<close>

text \<open>
  Modelled from the spec: the constant \<open>MAXIMUM_SCRIPT_ELEMENT_SIZE\<close> of
  \<open>../constants\<close>, which is not among the sources; the spec gives the maximum
  script-element size as 520 bytes.
\<close>

definition MAXIMUM_SCRIPT_ELEMENT_SIZE :: nat where
  "MAXIMUM_SCRIPT_ELEMENT_SIZE = 520"

text \<open>
  An element of the array handed to \<open>bitcoin.script.compile\<close>: \<open>number | Buffer\<close>. A
  number is an opcode, written as its byte; a Buffer is a data push. The script is kept
  as this array; its serialisation is the library's.
\<close>

datatype stack_element = Op nat | Push buffer

type_synonym script = "stack_element list"

definition OP_FALSE :: nat where "OP_FALSE = 0"
definition OP_0 :: nat where "OP_0 = 0"
definition OP_IF :: nat where "OP_IF = 99"
definition OP_ENDIF :: nat where "OP_ENDIF = 104"
definition OP_CHECKSIG :: nat where "OP_CHECKSIG = 172"

text \<open>
  \<open>opPush\<close>: a string is read as UTF-8, a Buffer taken as it is; more than
  \<open>MAXIMUM_SCRIPT_ELEMENT_SIZE\<close> bytes is an error.
\<close>

definition opPush :: "js_data \<Rightarrow> error + buffer" where
  "opPush data =
     (let buff = (case data of Buf b \<Rightarrow> b | Str s \<Rightarrow> Buffer_from (Str s) Utf8) in
      if length buff > MAXIMUM_SCRIPT_ELEMENT_SIZE then Inl OversizedElement
      else Inr buff)"

text \<open>
  The \<open>while\<close> loop of \<open>chunkContent\<close>, with its two variables \<open>chunkedBytes\<close> and
  \<open>chunks\<close>. It ends because every chunk taken below the end of the buffer is not empty.
\<close>

function chunk_loop :: "buffer \<Rightarrow> nat \<Rightarrow> buffer list \<Rightarrow> buffer list" where
  "chunk_loop contentBuffer chunkedBytes chunks =
     (if chunkedBytes < length contentBuffer then
        chunk_loop contentBuffer
          (chunkedBytes +
             length (subarray contentBuffer chunkedBytes
                       (chunkedBytes + MAXIMUM_SCRIPT_ELEMENT_SIZE)))
          (chunks @
             [subarray contentBuffer chunkedBytes
                (chunkedBytes + MAXIMUM_SCRIPT_ELEMENT_SIZE)])
      else chunks)"
  by pat_completeness auto
termination
  by (relation "measure (\<lambda>(b, k, acc). length b - k)")
     (auto simp: subarray_def MAXIMUM_SCRIPT_ELEMENT_SIZE_def)

declare chunk_loop.simps [simp del]

text \<open>
  \<open>chunkContent(str, encoding)\<close>. The source tests \<open>Buffer.isBuffer(Buffer)\<close>, the
  constructor itself, which is never a Buffer: the content always goes through
  \<open>Buffer.from(str, encoding)\<close>.
\<close>

definition chunkContent :: "js_data \<Rightarrow> BufferEncoding \<Rightarrow> buffer list" where
  "chunkContent str encoding = chunk_loop (Buffer_from str encoding) 0 []"

text \<open>
  The options of \<open>buildWitnessScript\<close>. A field that is \<open>undefined\<close> is \<open>None\<close>.
  \<open>mediaContent\<close> and \<open>mediaType\<close> are a scalar or an array. Of \<open>meta\<close> (typed
  \<open>any\<close>) the function reads only \<open>typeof meta === "object"\<close> and
  \<open>JSON.stringify(meta)\<close>: an object (\<open>null\<close> included) is represented by its JSON
  text, every other value by \<open>MetaNotObject\<close>.
\<close>

datatype media_content = One js_data | Many "js_data list"

datatype media_type = TypeOne string | TypeMany "string list"

datatype meta_value = MetaObject string | MetaNotObject

record WitnessScriptOptions =
  xkey :: "string option"
  mediaContent :: "media_content option"
  mediaType :: "media_type option"
  meta :: meta_value
  recover :: bool

text \<open>
  JavaScript's \<open>!x\<close> on the three checked fields: \<open>undefined\<close> and the empty string
  are falsy; an array or a Buffer is an object and never falsy, even when empty.
\<close>

fun falsy_string :: "string option \<Rightarrow> bool" where
  "falsy_string None = True"
| "falsy_string (Some s) = (s = [])"

fun falsy_content :: "media_content option \<Rightarrow> bool" where
  "falsy_content None = True"
| "falsy_content (Some (One (Str s))) = (s = [])"
| "falsy_content (Some _) = False"

fun falsy_type :: "media_type option \<Rightarrow> bool" where
  "falsy_type None = True"
| "falsy_type (Some (TypeOne s)) = (s = [])"
| "falsy_type (Some (TypeMany ts)) = False"

text \<open>
  \<open>options.mediaType[index]\<close>: an element of the array, or the one-unit string at
  that position of a scalar media type; \<open>undefined\<close> (\<open>None\<close>) out of range.
\<close>

fun mediaType_at :: "media_type \<Rightarrow> nat \<Rightarrow> string option" where
  "mediaType_at (TypeOne s) i = string_at s i"
| "mediaType_at (TypeMany ts) i = (if i < length ts then Some (ts ! i) else None)"

text \<open>
  \<open>options.mediaType.includes("text")\<close> in the scalar-content branch: a substring test
  on a string, a membership test on an array.
\<close>

fun mediaType_includes_text :: "media_type \<Rightarrow> bool" where
  "mediaType_includes_text (TypeOne s) = string_includes s ''text''"
| "mediaType_includes_text (TypeMany ts) = (''text'' \<in> set ts)"

text \<open>The conditional block of one content: \<open>OP_FALSE OP_IF ... OP_ENDIF\<close>.\<close>

definition envelope_block :: "buffer \<Rightarrow> buffer \<Rightarrow> buffer list \<Rightarrow> script" where
  "envelope_block tag mt chunks =
     [Op OP_FALSE, Op OP_IF, Push tag, Op 1, Op 1, Push mt, Op OP_0]
     @ map Push chunks @ [Op OP_ENDIF]"

text \<open>The metadata elements (lines 17 to 38): empty unless \<open>typeof meta\<close> is "object".\<close>

definition metaStackElements :: "meta_value \<Rightarrow> error + script" where
  "metaStackElements m =
     (case m of
        MetaNotObject \<Rightarrow> Inr []
      | MetaObject json \<Rightarrow>
          and_then (opPush (Str ''DOB'')) (\<lambda>tag.
          and_then (opPush (Str ''application/json;charset=utf-8'')) (\<lambda>mt.
          and_then (map_result opPush (map Buf (chunkContent (Str json) Utf8))) (\<lambda>chunks.
          Inr (envelope_block tag mt chunks)))))"

text \<open>The callback of \<open>options.mediaContent.map\<close> (lines 47 to 61), for one item.\<close>

definition multiContent :: "media_type \<Rightarrow> nat \<Rightarrow> js_data \<Rightarrow> error + script" where
  "multiContent mt index content =
     (case mediaType_at mt index of
        None \<Rightarrow> Inl TypeError
      | Some t \<Rightarrow>
          and_then
            (map_result opPush
               (map Buf (chunkContent content (if \<not> string_includes t ''text'' then Base64 else Utf8))))
            (\<lambda>contentStackElements.
          and_then (opPush (Str ''DOB'')) (\<lambda>tag.
          and_then (opPush (Str t)) (\<lambda>mtPush.
          Inr (envelope_block tag mtPush contentStackElements)))))"

text \<open>
  \<open>buildWitnessScript\<close>. The scalar-content branch pushes \<open>options.mediaType as string\<close>;
  when the media type is an array there, \<open>Buffer.from\<close> turns each of its strings into
  one byte by the runtime's numeric coercion, which is the parameter \<open>ToUint8\<close>.
\<close>

definition buildWitnessScript ::
  "(string \<Rightarrow> byte) \<Rightarrow> WitnessScriptOptions \<Rightarrow> error + script" where
  "buildWitnessScript ToUint8 options =
     (if falsy_type (mediaType options) \<or> falsy_content (mediaContent options)
         \<or> falsy_string (xkey options)
      then Inl MissingField
      else
        case (xkey options, mediaContent options, mediaType options) of
          (Some k, Some mc, Some mt) \<Rightarrow>
            let key = Buffer_from (Str k) Hex in
            if recover options then Inr [Push key, Op OP_CHECKSIG]
            else
              and_then (metaStackElements (meta options)) (\<lambda>metaElements.
                case mc of
                  Many contents \<Rightarrow>
                    and_then
                      (map_result (\<lambda>(index, content). multiContent mt index content)
                         (zip [0 ..< length contents] contents))
                      (\<lambda>multiContents.
                         Inr ([Push key, Op OP_CHECKSIG] @ concat multiContents))
                | One content \<Rightarrow>
                    and_then
                      (map_result opPush
                         (map Buf
                            (chunkContent content
                               (if \<not> mediaType_includes_text mt then Base64 else Utf8))))
                      (\<lambda>contentStackElements.
                    and_then (opPush (Str ''DOB'')) (\<lambda>tag.
                    and_then
                      (case mt of
                         TypeOne s \<Rightarrow> opPush (Str s)
                       | TypeMany ts \<Rightarrow> opPush (Buf (map ToUint8 ts)))
                      (\<lambda>mtPush.
                    Inr ([Push key, Op OP_CHECKSIG]
                         @ envelope_block tag mtPush contentStackElements
                         @ metaElements)))))
        | _ \<Rightarrow> Inl MissingField)"


text \<open>
  A coercion for the closed theorems: a string that is not a numeric literal is \<open>NaN\<close>,
  which an array-built Buffer stores as 0.
\<close>

definition ToUint8_NaN :: "string \<Rightarrow> byte" where
  "ToUint8_NaN s = 0"

text \<open>
  For comparison with the source, the batch encoding as the specification words it:
  the bytes of an item whose media type is not text are put into base64 text (RFC 4648,
  padded), and that text is chunked.
\<close>

definition base64_char :: "nat \<Rightarrow> char" where
  "base64_char n =
     ''ABCDEFGHIJKLMNOPQRSTUVWXYZabcdefghijklmnopqrstuvwxyz0123456789+/'' ! n"

fun base64_encode :: "nat list \<Rightarrow> string" where
  "base64_encode (a # b # c # rest) =
     [base64_char (a div 4), base64_char ((a mod 4) * 16 + b div 16),
      base64_char ((b mod 16) * 4 + c div 64), base64_char (c mod 64)]
     @ base64_encode rest"
| "base64_encode [a, b] =
     [base64_char (a div 4), base64_char ((a mod 4) * 16 + b div 16),
      base64_char ((b mod 16) * 4), CHR ''='']"
| "base64_encode [a] =
     [base64_char (a div 4), base64_char ((a mod 4) * 16), CHR ''='', CHR ''='']"
| "base64_encode [] = []"

definition item_chunks_as_claimed :: "string \<Rightarrow> js_data \<Rightarrow> buffer list" where
  "item_chunks_as_claimed t content =
     (if \<not> string_includes t ''text''
      then chunkContent (Str (base64_encode (map unat (Buffer_from content Utf8)))) Utf8
      else chunkContent content Utf8)"


section \<open>The PSBT assembler (createPsbt)\<close>

text \<open>
  Amounts are satoshis, kept as integers. The UTXO type is declared in \<open>./types\<close>,
  which is not among the sources; the record has the fields that the code reads.
  \<open>spk_hex\<close> is \<open>None\<close> when \<open>scriptPubKey.hex\<close> is \<open>undefined\<close>.
\<close>

record ScriptPubKey =
  spk_address :: string
  spk_type :: string
  spk_hex :: "string option"

record UTXO =
  txid :: string
  n :: nat
  sats :: int
  scriptPubKey :: ScriptPubKey

datatype OnOffUnion = On | Off

datatype InputType =
    LegacyInput (input_hash: string) (input_index: nat) (nonWitnessUtxo: buffer)
      (sighashType: "nat option")
  | SegwitInput (input_hash: string) (input_index: nat) (witnessUtxo_script: buffer)
      (witnessUtxo_value: int) (sighashType: "nat option")
  | NestedSegwitInput (input_hash: string) (input_index: nat) (redeemScript: buffer)
      (witnessUtxo_script: buffer) (witnessUtxo_value: int) (sighashType: "nat option")
  | TaprootInput (input_hash: string) (input_index: nat) (tapInternalKey: buffer)
      (witnessUtxo_script: buffer) (witnessUtxo_value: int)
      (witnesses: "buffer list option") (sighashType: "nat option")

text \<open>An entry of \<open>outputs\<close>: \<open>{ address, cardinals }\<close>.\<close>

record PsbtOutput =
  to_address :: string
  cardinals :: int

text \<open>
  The library's \<open>Psbt\<close>, as far as the assembler drives it: the inputs, each with its
  sequence number, and the outputs. \<open>addInput\<close> gives a new input the default sequence
  \<open>0xffffffff\<close>; \<open>setInputSequence\<close> refuses an index that is not an input's. The
  library's own validation of an input or an address is outside the model.
\<close>

record Psbt =
  psbt_inputs :: "(InputType \<times> nat) list"
  psbt_outputs :: "PsbtOutput list"

definition new_Psbt :: Psbt where
  "new_Psbt = \<lparr>psbt_inputs = [], psbt_outputs = []\<rparr>"

definition DEFAULT_SEQUENCE :: nat where
  "DEFAULT_SEQUENCE = 0xffffffff"

definition addInput :: "Psbt \<Rightarrow> InputType \<Rightarrow> Psbt" where
  "addInput psbt payload =
     psbt\<lparr>psbt_inputs := psbt_inputs psbt @ [(payload, DEFAULT_SEQUENCE)]\<rparr>"

definition setInputSequence :: "Psbt \<Rightarrow> nat \<Rightarrow> nat \<Rightarrow> error + Psbt" where
  "setInputSequence psbt inputIndex sequence =
     (if length (psbt_inputs psbt) \<le> inputIndex then Inl InputIndexTooHigh
      else Inr (psbt\<lparr>psbt_inputs :=
                  (psbt_inputs psbt)[inputIndex := (fst (psbt_inputs psbt ! inputIndex), sequence)]\<rparr>))"

definition addOutput :: "Psbt \<Rightarrow> PsbtOutput \<Rightarrow> Psbt" where
  "addOutput psbt out = psbt\<lparr>psbt_outputs := psbt_outputs psbt @ [out]\<rparr>"

text \<open>What \<open>OrditApi.fetchUnspentUTXOs\<close> returns.\<close>

record UnspentUTXOs =
  spendableUTXOs :: "UTXO list"
  unspendableUTXOs :: "UTXO list"
  totalUTXOs :: nat

text \<open>
  The collaborators of the assembler, none of them among the sources: the data source
  (\<open>fetchUnspentUTXOs\<close>, with \<open>True\<close> for the type "all" and \<open>False\<close> for
  "spendable"; \<open>fetchTx\<close>, the raw transaction or \<open>undefined\<close>), the key and payment
  helpers (\<open>xOnlyPubKey\<close> for \<open>toXOnly(bip32.fromPublicKey(...).publicKey)\<close>;
  \<open>p2sh_redeem\<close> for \<open>createTransaction(..., "p2sh", ...)\<close>, the redeem output when
  the payment, its output and its redeem are there), the fee estimator
  (\<open>new FeeEstimator({psbt, feeRate, network}).calculateNetworkFee()\<close>) and the
  constant \<open>MINIMUM_AMOUNT_IN_SATS\<close> of \<open>../constants\<close>.
\<close>

record constants =
  MINIMUM_AMOUNT_IN_SATS :: int

record psbt_env = constants +
  fetchUnspentUTXOs :: "string \<Rightarrow> string \<Rightarrow> bool \<Rightarrow> error + UnspentUTXOs"
  fetchTx :: "string \<Rightarrow> string \<Rightarrow> error + buffer option"
  xOnlyPubKey :: "string \<Rightarrow> string \<Rightarrow> error + buffer"
  p2sh_redeem :: "string \<Rightarrow> string \<Rightarrow> buffer option"
  estimateFee :: "Psbt \<Rightarrow> int \<Rightarrow> string \<Rightarrow> int"

text \<open>
  \<open>...(sighashType ? { sighashType } : undefined)\<close>: the member is left out when
  \<open>sighashType\<close> is \<open>undefined\<close> or 0.
\<close>

definition spread_sighashType :: "nat option \<Rightarrow> nat option" where
  "spread_sighashType sighash = (if sighash = Some 0 then None else sighash)"

definition generateTaprootInput ::
  "psbt_env \<Rightarrow> UTXO \<Rightarrow> string \<Rightarrow> string \<Rightarrow> nat option \<Rightarrow> buffer list option
   \<Rightarrow> error + InputType" where
  "generateTaprootInput env utxo pubKey network sighash wits =
     and_then (xOnlyPubKey env pubKey network) (\<lambda>xOnly.
       if falsy_string (spk_hex (scriptPubKey utxo)) then Inl UnableToProcessInput
       else
         case spk_hex (scriptPubKey utxo) of
           Some hex \<Rightarrow>
             Inr (TaprootInput (txid utxo) (n utxo) xOnly (Buffer_from (Str hex) Hex)
                    (sats utxo) wits (spread_sighashType sighash))
         | None \<Rightarrow> Inl UnableToProcessInput)"

definition generateSegwitInput :: "UTXO \<Rightarrow> nat option \<Rightarrow> error + InputType" where
  "generateSegwitInput utxo sighash =
     (if falsy_string (spk_hex (scriptPubKey utxo)) then Inl UnableToProcessInput
      else
        case spk_hex (scriptPubKey utxo) of
          Some hex \<Rightarrow>
            Inr (SegwitInput (txid utxo) (n utxo) (Buffer_from (Str hex) Hex) (sats utxo)
                   (spread_sighashType sighash))
        | None \<Rightarrow> Inl UnableToProcessInput)"

text \<open>
  The nested-segwit branch does not test \<open>scriptPubKey.hex\<close>: \<open>Buffer.from(undefined,
  "hex")\<close> is the runtime's \<open>TypeError\<close>.
\<close>

definition generateNestedSegwitInput ::
  "psbt_env \<Rightarrow> UTXO \<Rightarrow> string \<Rightarrow> string \<Rightarrow> nat option \<Rightarrow> error + InputType" where
  "generateNestedSegwitInput env utxo pubKey network sighash =
     (case p2sh_redeem env pubKey network of
        None \<Rightarrow> Inl UnableToProcessInput
      | Some redeem \<Rightarrow>
          (case spk_hex (scriptPubKey utxo) of
             None \<Rightarrow> Inl TypeError
           | Some hex \<Rightarrow>
               Inr (NestedSegwitInput (txid utxo) (n utxo) redeem
                      (Buffer_from (Str hex) Hex) (sats utxo)
                      (spread_sighashType sighash))))"

definition generateLegacyInput ::
  "psbt_env \<Rightarrow> UTXO \<Rightarrow> string \<Rightarrow> nat option \<Rightarrow> error + InputType" where
  "generateLegacyInput env utxo network sighash =
     and_then (fetchTx env (txid utxo) network) (\<lambda>rawTx.
       case rawTx of
         None \<Rightarrow> Inl UnableToProcessInput
       | Some raw \<Rightarrow>
           Inr (LegacyInput (txid utxo) (n utxo) raw (spread_sighashType sighash)))"

definition processInput ::
  "psbt_env \<Rightarrow> UTXO \<Rightarrow> string \<Rightarrow> string \<Rightarrow> nat option \<Rightarrow> buffer list option
   \<Rightarrow> error + InputType" where
  "processInput env utxo pubKey network sighash wits =
     (let t = spk_type (scriptPubKey utxo) in
      if t = ''witness_v1_taproot''
        then generateTaprootInput env utxo pubKey network sighash wits
      else if t = ''witness_v0_scripthash'' \<or> t = ''witness_v0_keyhash''
        then generateSegwitInput utxo sighash
      else if t = ''scripthash''
        then generateNestedSegwitInput env utxo pubKey network sighash
      else if t = ''pubkeyhash''
        then generateLegacyInput env utxo network sighash
      else Inl InvalidScriptPubType)"

text \<open>
  The loop \<open>for (const [index, utxo] of spendableUTXOs.entries())\<close>: \<open>index\<close> is the
  position in \<open>spendableUTXOs\<close>, also after a UTXO was skipped. The local array
  \<open>witnesses\<close>, which nothing reads, is left out.
\<close>

fun add_inputs ::
  "psbt_env \<Rightarrow> string \<Rightarrow> string \<Rightarrow> string \<Rightarrow> bool \<Rightarrow> (nat \<times> UTXO) list \<Rightarrow> Psbt
   \<Rightarrow> error + Psbt" where
  "add_inputs env pubKey network address enableRBF [] psbt = Inr psbt"
| "add_inputs env pubKey network address enableRBF ((index, utxo) # rest) psbt =
     (if spk_address (scriptPubKey utxo) \<noteq> address
      then add_inputs env pubKey network address enableRBF rest psbt
      else
        and_then (processInput env utxo pubKey network None None) (\<lambda>payload.
        and_then
          (if enableRBF then setInputSequence (addInput psbt payload) index 0xfffffffd
           else Inr (addInput psbt payload))
          (\<lambda>psbt'. add_inputs env pubKey network address enableRBF rest psbt')))"

definition createPsbt ::
  "psbt_env \<Rightarrow> string \<Rightarrow> string \<Rightarrow> string \<Rightarrow> PsbtOutput list \<Rightarrow> int \<Rightarrow> OnOffUnion
   \<Rightarrow> bool \<Rightarrow> error + Psbt" where
  "createPsbt env pubKey network address outputs satsPerByte safeMode enableRBF =
     (if length outputs = 0 then Inl InvalidRequest
      else
        and_then (fetchUnspentUTXOs env address network (safeMode = Off)) (\<lambda>unspent.
          if totalUTXOs unspent = 0 then Inl NoSpendableUTXOs
          else
            let inputSats =
                  sum_list
                    (map sats
                       (spendableUTXOs unspent
                        @ (if safeMode = Off then unspendableUTXOs unspent else [])));
                outputSats = sum_list (map cardinals outputs)
            in
            and_then
              (add_inputs env pubKey network address enableRBF
                 (zip [0 ..< length (spendableUTXOs unspent)] (spendableUTXOs unspent))
                 new_Psbt)
              (\<lambda>psbt.
                 let fee = estimateFee env psbt satsPerByte network;
                     remainingBalance = inputSats - outputSats - fee
                 in
                 if remainingBalance < 0
                 then Inl (InsufficientBalance inputSats outputSats fee)
                 else
                   let isChangeOwed = remainingBalance > MINIMUM_AMOUNT_IN_SATS env;
                       outputs' =
                         (if isChangeOwed
                          then outputs @ [\<lparr>to_address = address, cardinals = remainingBalance\<rparr>]
                          else outputs)
                   in Inr (foldl addOutput psbt outputs'))))"


section \<open>The transfer validator (BRC20TransferBase)\<close>

text \<open>
  An entry of the ledger's answer for an address, and the triple that \<open>getBalances\<close>
  returns. Amounts are compared with \<open>>=\<close> only, so any linear order stands for them.
\<close>

record 'a Balances =
  total :: 'a
  available :: 'a
  transferable :: 'a

record 'a AddressToken = "'a Balances" +
  tick :: string

text \<open>
  \<open>datasource || new JsonRpcDatasource({ network })\<close>: the data source given, or the
  default one for the network. Of a data source only \<open>getAddressTokens\<close> is called.
\<close>

type_synonym 'a token_datasource = "string \<Rightarrow> error + 'a AddressToken list"

definition getBalances ::
  "(string \<Rightarrow> 'a token_datasource) \<Rightarrow> string \<Rightarrow> string \<Rightarrow> 'a token_datasource option
   \<Rightarrow> string \<Rightarrow> error + 'a Balances" where
  "getBalances JsonRpcDatasource address tk datasource network =
     (let ds = (case datasource of Some d \<Rightarrow> d | None \<Rightarrow> JsonRpcDatasource network) in
      and_then (ds address) (\<lambda>balances.
        case find (\<lambda>b. tick b = tk) balances of
          None \<Rightarrow> Inl NoBalance
        | Some balance \<Rightarrow>
            Inr \<lparr>total = total balance, available = available balance,
                 transferable = transferable balance\<rparr>))"

definition hasEnoughTransferableBalance ::
  "(string \<Rightarrow> ('a::linorder) token_datasource) \<Rightarrow> string \<Rightarrow> 'a \<Rightarrow> string
   \<Rightarrow> 'a token_datasource option \<Rightarrow> string \<Rightarrow> error + bool" where
  "hasEnoughTransferableBalance JsonRpcDatasource address amount tk datasource network =
     and_then (getBalances JsonRpcDatasource address tk datasource network)
       (\<lambda>b. Inr (transferable b \<ge> amount))"

definition hasEnoughOverallBalance ::
  "(string \<Rightarrow> ('a::linorder) token_datasource) \<Rightarrow> string \<Rightarrow> 'a \<Rightarrow> string
   \<Rightarrow> 'a token_datasource option \<Rightarrow> string \<Rightarrow> error + bool" where
  "hasEnoughOverallBalance JsonRpcDatasource address amount tk datasource network =
     and_then (getBalances JsonRpcDatasource address tk datasource network)
       (\<lambda>b. Inr (available b \<ge> amount))"


section \<open>The commit/reveal orchestrator (Inscriber)\<close>

text \<open>
  \<open>Inscriber\<close> extends \<open>PSBTBuilder\<close>, which is not among the sources. The inherited
  fields that \<open>Inscriber\<close> reads or writes are the record \<open>PSBTBuilder\<close>; whatever
  else the base class keeps (the PSBT under construction, sizes, amounts) is the record's
  extension \<open>'h\<close>. An \<open>Inscriber\<close> holds the inherited state in the field \<open>base\<close>: the
  base class's methods see and change that part only, the fields declared \<open>private\<close> in
  \<open>Inscriber\<close> being out of their reach.
\<close>

record Output =
  out_address :: string
  out_value :: int

record TapLeafScript =
  leafVersion :: nat
  leaf_script :: script
  controlBlock :: "buffer option"

record InscriberInput =
  in_hash :: string
  in_index :: nat
  in_tapInternalKey :: buffer
  in_witnessUtxo_script :: buffer
  in_witnessUtxo_value :: int
  in_tapLeafScript :: "TapLeafScript list"

record PSBTBuilder =
  address :: string
  changeAddress :: "string option"
  xKey :: string
  network :: string
  fee :: int
  outputAmount :: int
  inputs :: "InscriberInput list"
  outputs :: "Output list"

text \<open>
  The library's \<open>Payment\<close>, with the members that \<open>Inscriber\<close> reads; those that the
  source asserts to be there (\<open>output!\<close>, \<open>redeem!\<close>, \<open>witness!\<close>) are taken as present.
\<close>

record Payment =
  pay_address :: "string option"
  pay_output :: buffer
  pay_redeemVersion :: nat
  pay_redeem_output :: script
  pay_witness :: "buffer list"

datatype Taptree = Leaf script | Branch Taptree Taptree

record WitnessScripts =
  inscription :: "script option"
  inscriptionOnly :: "script option"
  recovery_script :: "script option"

text \<open>
  The field \<open>meta\<close> of an \<open>Inscriber\<close>: \<open>undefined\<close>, \<open>null\<close>, or a metadata
  object, which is represented by its JSON text.
\<close>

datatype inscriber_meta = MetaUndefined | MetaNull | MetaJson string

text \<open>The fields of \<open>Inscriber\<close>.\<close>

record 'h Inscriber =
  base :: "'h PSBTBuilder_scheme"
  this_mediaType :: "media_type option"
  this_mediaContent :: "media_content option"
  this_meta :: inscriber_meta
  taptreeVersion :: "string option"
  postage :: int
  ready :: bool
  commitAddress :: "string option"
  destinationAddress :: "string option"
  payment :: "Payment option"
  suitableUnspent :: "UTXO option"
  recovery :: bool
  recoverAmount :: int
  safeMode :: OnOffUnion
  encodeMetadata :: bool
  previewMode :: bool
  witnessScripts :: WitnessScripts
  taprootTree :: "Taptree option"

text \<open>
  The collaborators of \<open>Inscriber\<close>, none of them among the sources. A method of the
  base class takes the inherited state and returns it changed; an asynchronous one
  returns its result or its failure beside the state it leaves.
\<close>

record 'h inscriber_env = constants +
  coerce_ToUint8 :: "string \<Rightarrow> byte"
  encodeObject :: "string \<Rightarrow> string"
  createTransaction_p2tr :: "buffer \<Rightarrow> string \<Rightarrow> Taptree option \<Rightarrow> script option \<Rightarrow> error + Payment"
  getUnspents :: "string option \<Rightarrow> error + UTXO list"
  getDummyP2TRInput :: UTXO
  prepare :: "'h PSBTBuilder_scheme \<Rightarrow> (error + unit) \<times> 'h PSBTBuilder_scheme"
  calculateNetworkFee :: "'h PSBTBuilder_scheme \<Rightarrow> 'h PSBTBuilder_scheme"
  initPSBT :: "'h PSBTBuilder_scheme \<Rightarrow> 'h PSBTBuilder_scheme"
  retrieveSelectedUTXOs ::
    "'h PSBTBuilder_scheme \<Rightarrow> string option \<Rightarrow> int
     \<Rightarrow> (error + UTXO list) \<times> 'h PSBTBuilder_scheme"

text \<open>\<open>a || b\<close> on an optional string: \<open>undefined\<close> and the empty string are falsy.\<close>

definition or_else :: "string option \<Rightarrow> string \<Rightarrow> string" where
  "or_else a b = (if falsy_string a then b else (case a of Some s \<Rightarrow> s | None \<Rightarrow> b))"

text \<open>
  \<open>getMetadata\<close>: a falsy \<open>meta\<close> is handed on as it is, and \<open>null\<close> is an object
  for \<open>typeof\<close>, with the JSON text \<open>null\<close>.
\<close>

definition getMetadata :: "'h inscriber_env \<Rightarrow> 'h Inscriber \<Rightarrow> meta_value" where
  "getMetadata env this =
     (case this_meta this of
        MetaUndefined \<Rightarrow> MetaNotObject
      | MetaNull \<Rightarrow> MetaObject ''null''
      | MetaJson json \<Rightarrow>
          if encodeMetadata this then MetaObject (encodeObject env json) else MetaObject json)"

text \<open>
  \<open>build\<close>, lines 234 to 272: the input spending the funding UTXO, and the outputs. In
  recovery mode \<open>recoverAmount\<close> is computed from the fee as it stands when \<open>build\<close>
  is entered, before \<open>prepare\<close> runs.
\<close>

definition build_inputs_outputs :: "'h Inscriber \<Rightarrow> UTXO \<Rightarrow> Payment \<Rightarrow> 'h Inscriber" where
  "build_inputs_outputs this unspent pay =
     (let this1 = this\<lparr>base := (base this)\<lparr>inputs :=
            [\<lparr>in_hash = txid unspent, in_index = n unspent,
              in_tapInternalKey = Buffer_from (Str (xKey (base this))) Hex,
              in_witnessUtxo_script = pay_output pay,
              in_witnessUtxo_value = sats unspent,
              in_tapLeafScript =
                [\<lparr>leafVersion = pay_redeemVersion pay,
                  leaf_script = pay_redeem_output pay,
                  controlBlock =
                    (if pay_witness pay = [] then None else Some (last (pay_witness pay)))\<rparr>]\<rparr>]\<rparr>\<rparr>;
          this2 =
            (if \<not> recovery this1
             then this1\<lparr>base := (base this1)\<lparr>outputs :=
                    [\<lparr>out_address = or_else (destinationAddress this1) (address (base this1)),
                      out_value = postage this1\<rparr>] @ outputs (base this1)\<rparr>\<rparr>
             else this1);
          this3 =
            (if recovery this2
             then
               let this' = this2\<lparr>recoverAmount := sats unspent - fee (base this2)\<rparr> in
               this'\<lparr>base := (base this')\<lparr>outputs :=
                    [\<lparr>out_address = or_else (changeAddress (base this')) (address (base this')),
                      out_value = recoverAmount this'\<rparr>]\<rparr>\<rparr>
             else this2)
      in this3)"

definition build ::
  "'h inscriber_env \<Rightarrow> 'h Inscriber \<Rightarrow> (error + unit) \<times> 'h Inscriber" where
  "build env this =
     (case (suitableUnspent this, payment this) of
        (Some unspent, Some pay) \<Rightarrow>
          (let this' = build_inputs_outputs this unspent pay in
           case prepare env (base this') of (r, b) \<Rightarrow> (r, this'\<lparr>base := b\<rparr>))
      | _ \<Rightarrow> (Inl NotReady, this))"

text \<open>\<open>isBuilt\<close> throws or returns nothing: the error, if any.\<close>

definition isBuilt :: "'h Inscriber \<Rightarrow> error option" where
  "isBuilt this =
     (if falsy_string (commitAddress this) \<or> fee (base this) = 0 then Some NotBuilt else None)"

definition restrictUsageInPreviewMode :: "'h Inscriber \<Rightarrow> error option" where
  "restrictUsageInPreviewMode this =
     (if previewMode this then Some PreviewModeRestricted else None)"

text \<open>\<open>buildWitness\<close>: the three scripts, in the order of the object literal.\<close>

definition buildWitness :: "'h inscriber_env \<Rightarrow> 'h Inscriber \<Rightarrow> error + 'h Inscriber" where
  "buildWitness env this =
     and_then
       (buildWitnessScript (coerce_ToUint8 env)
          \<lparr>xkey = Some (xKey (base this)), mediaContent = this_mediaContent this,
           mediaType = this_mediaType this, meta = getMetadata env this, recover = False\<rparr>)
       (\<lambda>s1.
     and_then
       (buildWitnessScript (coerce_ToUint8 env)
          \<lparr>xkey = Some (xKey (base this)), mediaContent = this_mediaContent this,
           mediaType = this_mediaType this, meta = MetaNotObject, recover = False\<rparr>)
       (\<lambda>s2.
     and_then
       (buildWitnessScript (coerce_ToUint8 env)
          \<lparr>xkey = Some (xKey (base this)), mediaContent = this_mediaContent this,
           mediaType = this_mediaType this, meta = getMetadata env this, recover = True\<rparr>)
       (\<lambda>s3.
     Inr (this\<lparr>witnessScripts :=
            \<lparr>inscription = Some s1, inscriptionOnly = Some s2, recovery_script = Some s3\<rparr>\<rparr>))))"

definition buildTaprootTree :: "'h inscriber_env \<Rightarrow> 'h Inscriber \<Rightarrow> error + 'h Inscriber" where
  "buildTaprootTree env this =
     and_then (buildWitness env this) (\<lambda>this1.
       case (inscription (witnessScripts this1), inscriptionOnly (witnessScripts this1),
             recovery_script (witnessScripts this1)) of
         (Some i, Some io, Some r) \<Rightarrow>
           Inr (this1\<lparr>taprootTree :=
                  Some (if taptreeVersion this1 = Some ''2''
                        then Branch (Branch (Leaf r) (Leaf i)) (Leaf io)
                        else Branch (Leaf i) (Leaf r))\<rparr>)
       | _ \<Rightarrow> Inl TypeError)"

definition getRecoveryRedeemScript :: "'h Inscriber \<Rightarrow> script option" where
  "getRecoveryRedeemScript this = recovery_script (witnessScripts this)"

text \<open>\<open>preview({ activate })\<close>.\<close>

definition preview ::
  "'h inscriber_env \<Rightarrow> bool \<Rightarrow> 'h Inscriber \<Rightarrow> (error + unit) \<times> 'h Inscriber" where
  "preview env activate this =
     (if activate then
        let this1 = this\<lparr>previewMode := True\<rparr> in
        if recovery this1 then
          (case getUnspents env (commitAddress this1) of
             Inl e \<Rightarrow> (Inl e, this1)
           | Inr spendable \<Rightarrow>
               let this2 = this1\<lparr>suitableUnspent :=
                             (case spendable of [] \<Rightarrow> None | u # _ \<Rightarrow> Some u)\<rparr> in
               if suitableUnspent this2 = None then (Inl NoUTXOFound, this2)
               else build env (this2\<lparr>ready := True\<rparr>))
        else build env (this1\<lparr>suitableUnspent := Some (getDummyP2TRInput env), ready := True\<rparr>)
      else
        (Inr (),
         this\<lparr>base := (initPSBT env (base this))
                   \<lparr>outputs := (case outputs (initPSBT env (base this)) of
                                  [] \<Rightarrow> [] | _ # rest \<Rightarrow> rest)\<rparr>,
              suitableUnspent := None, ready := False, previewMode := False\<rparr>))"

definition calculateNetworkFeeUsingPreviewMode ::
  "'h inscriber_env \<Rightarrow> 'h Inscriber \<Rightarrow> (error + unit) \<times> 'h Inscriber" where
  "calculateNetworkFeeUsingPreviewMode env this =
     (case preview env True this of
        (Inl e, this1) \<Rightarrow> (Inl e, this1)
      | (Inr _, this1) \<Rightarrow>
          preview env False (this1\<lparr>base := calculateNetworkFee env (base this1)\<rparr>))"

text \<open>What \<open>recover\<close> returns.\<close>

record RecoverResult =
  recoverAddress :: string
  reported_recoverAmount :: int
  recoverFee :: int

definition Inscriber_recover ::
  "'h inscriber_env \<Rightarrow> 'h Inscriber \<Rightarrow> (error + RecoverResult) \<times> 'h Inscriber" where
  "Inscriber_recover env this =
     (let this1 = this\<lparr>recovery := True\<rparr> in
      case buildTaprootTree env this1 of
        Inl e \<Rightarrow> (Inl e, this1)
      | Inr this2 \<Rightarrow>
          (case createTransaction_p2tr env (Buffer_from (Str (xKey (base this2))) Hex)
                  (network (base this2)) (taprootTree this2) (getRecoveryRedeemScript this2) of
             Inl e \<Rightarrow> (Inl e, this2)
           | Inr pay \<Rightarrow>
               (case calculateNetworkFeeUsingPreviewMode env
                       (this2\<lparr>payment := Some pay, commitAddress := pay_address pay\<rparr>) of
                  (Inl e, this3) \<Rightarrow> (Inl e, this3)
                | (Inr _, this3) \<Rightarrow>
                    (Inr \<lparr>recoverAddress =
                            or_else (changeAddress (base this3)) (address (base this3)),
                          reported_recoverAmount = recoverAmount this3 - fee (base this3),
                          recoverFee = fee (base this3)\<rparr>,
                     this3))))"

text \<open>
  The local constant \<open>amount\<close> of \<open>fetchAndSelectSuitableUnspent\<close>. The argument
  \<open>skipStrictSatsCheck\<close> is \<open>False\<close> when it is left out, \<open>customAmount\<close> is \<open>None\<close>;
  a custom amount of 0 is falsy.
\<close>

definition required_amount :: "bool \<Rightarrow> int option \<Rightarrow> 'h Inscriber \<Rightarrow> int" where
  "required_amount skipStrictSatsCheck customAmount this =
     (if recovery this then outputAmount (base this) - fee (base this)
      else
        case customAmount of
          Some c \<Rightarrow>
            if skipStrictSatsCheck \<and> c \<noteq> 0 then c
            else outputAmount (base this) + fee (base this)
        | None \<Rightarrow> outputAmount (base this) + fee (base this))"

definition fetchAndSelectSuitableUnspent ::
  "'h inscriber_env \<Rightarrow> bool \<Rightarrow> int option \<Rightarrow> 'h Inscriber
   \<Rightarrow> (error + UTXO) \<times> 'h Inscriber" where
  "fetchAndSelectSuitableUnspent env skipStrictSatsCheck customAmount this =
     (case restrictUsageInPreviewMode this of
        Some e \<Rightarrow> (Inl e, this)
      | None \<Rightarrow>
     (case isBuilt this of
        Some e \<Rightarrow> (Inl e, this)
      | None \<Rightarrow>
          let amount = required_amount skipStrictSatsCheck customAmount this in
          if amount < MINIMUM_AMOUNT_IN_SATS env then (Inl BelowDustLimit, this)
          else
            (case retrieveSelectedUTXOs env (base this) (commitAddress this) amount of
               (Inl e, b) \<Rightarrow> (Inl e, this\<lparr>base := b\<rparr>)
             | (Inr utxos, b) \<Rightarrow>
                 (case utxos of
                    [] \<Rightarrow> (Inl NoSelectedUTXOs, this\<lparr>base := b\<rparr>)
                  | u # _ \<Rightarrow>
                      (Inr u, this\<lparr>base := b, suitableUnspent := Some u, ready := True\<rparr>)))))"

text \<open>
  \<open>isReady\<close>: every failure of \<open>fetchAndSelectSuitableUnspent\<close> is caught, logged and
  turned into \<open>false\<close>.
\<close>

definition isReady ::
  "'h inscriber_env \<Rightarrow> bool \<Rightarrow> int option \<Rightarrow> 'h Inscriber \<Rightarrow> (error + bool) \<times> 'h Inscriber" where
  "isReady env skipStrictSatsCheck customAmount this =
     (case isBuilt this of
        Some e \<Rightarrow> (Inl e, this)
      | None \<Rightarrow>
          if \<not> ready this then
            (case fetchAndSelectSuitableUnspent env skipStrictSatsCheck customAmount this of
               (Inl e, this') \<Rightarrow> (Inr False, this')
             | (Inr u, this') \<Rightarrow> (Inr (ready this'), this'))
          else (Inr (ready this), this))"


section \<open>Sample collaborators for the closed theorems\<close>

text \<open>
  A pay-to-witness-key-hash UTXO, and a data source that answers with the two given
  lists (the second only when all UTXOs are asked for), beside a fee estimator of 100
  bytes per transaction and a minimum amount of 600 satoshis.
\<close>

definition demo_utxo :: "string \<Rightarrow> nat \<Rightarrow> int \<Rightarrow> string \<Rightarrow> UTXO" where
  "demo_utxo tx vout amount at_address =
     \<lparr>txid = tx, n = vout, sats = amount,
      scriptPubKey = \<lparr>spk_address = at_address, spk_type = ''witness_v0_keyhash'',
                      spk_hex = Some ''0014ab''\<rparr>\<rparr>"

definition demo_env :: "UTXO list \<Rightarrow> UTXO list \<Rightarrow> psbt_env" where
  "demo_env spendable unspendable =
     \<lparr>MINIMUM_AMOUNT_IN_SATS = 600,
      fetchUnspentUTXOs = (\<lambda>addr net all.
         Inr \<lparr>spendableUTXOs = spendable,
              unspendableUTXOs = (if all then unspendable else []),
              totalUTXOs = length spendable + (if all then length unspendable else 0)\<rparr>),
      fetchTx = (\<lambda>tx net. Inr None),
      xOnlyPubKey = (\<lambda>pubKey net. Inr (Buffer_from (Str pubKey) Hex)),
      p2sh_redeem = (\<lambda>pubKey net. None),
      estimateFee = (\<lambda>psbt feeRate net. feeRate * 100)\<rparr>"

text \<open>A ledger with two tickers for every address.\<close>

definition demo_JsonRpcDatasource :: "string \<Rightarrow> int token_datasource" where
  "demo_JsonRpcDatasource net holder =
     Inr [\<lparr>total = 5, available = 5, transferable = 0, tick = ''sats''\<rparr>,
          \<lparr>total = 1000, available = 700, transferable = 500, tick = ''ordi''\<rparr>]"


text \<open>
  Collaborators of an \<open>Inscriber\<close>: one funding UTXO of 10000 satoshis at the commit
  address, and a base class whose fee is 150 satoshis for every transaction and whose
  \<open>prepare\<close> also sums the outputs. \<open>demo_inscriber\<close> is an \<open>Inscriber\<close> as its
  constructor leaves it; \<open>demo_committed\<close> is one with a commit address and a fee.
\<close>

definition demo_inscriber_env :: "unit inscriber_env" where
  "demo_inscriber_env =
     \<lparr>MINIMUM_AMOUNT_IN_SATS = 600,
      coerce_ToUint8 = ToUint8_NaN,
      encodeObject = (\<lambda>json. json),
      createTransaction_p2tr = (\<lambda>key net tree redeem.
        Inr \<lparr>pay_address = Some ''commit'', pay_output = [81, 32], pay_redeemVersion = 192,
             pay_redeem_output = (case redeem of Some r \<Rightarrow> r | None \<Rightarrow> []),
             pay_witness = [[192]]\<rparr>),
      getUnspents = (\<lambda>a. Inr [demo_utxo ''ff'' 0 10000 ''commit'']),
      getDummyP2TRInput = demo_utxo ''00'' 0 0 ''dummy'',
      prepare = (\<lambda>b. (Inr (), b\<lparr>fee := 150, outputAmount := sum_list (map out_value (outputs b))\<rparr>)),
      calculateNetworkFee = (\<lambda>b. b\<lparr>fee := 150\<rparr>),
      initPSBT = (\<lambda>b. b),
      retrieveSelectedUTXOs = (\<lambda>b a amount. (Inr [demo_utxo ''ff'' 0 10000 ''commit''], b))\<rparr>"

definition demo_inscriber :: "unit Inscriber" where
  "demo_inscriber =
     \<lparr>base = \<lparr>address = ''funding'', changeAddress = Some ''change'', xKey = ''ab01'',
              network = ''testnet'', fee = 0, outputAmount = 0, inputs = [], outputs = []\<rparr>,
      this_mediaType = Some (TypeOne ''text/plain''),
      this_mediaContent = Some (One (Str ''hi'')),
      this_meta = MetaUndefined, taptreeVersion = None, postage = 546, ready = False,
      commitAddress = None, destinationAddress = Some ''dest'', payment = None,
      suitableUnspent = None, recovery = False, recoverAmount = 0, safeMode = On,
      encodeMetadata = False, previewMode = False,
      witnessScripts = \<lparr>inscription = None, inscriptionOnly = None, recovery_script = None\<rparr>,
      taprootTree = None\<rparr>"

definition demo_committed :: "unit Inscriber" where
  "demo_committed =
     demo_inscriber
       \<lparr>base := (base demo_inscriber)\<lparr>fee := 150, outputAmount := 100\<rparr>,
        commitAddress := Some ''commit''\<rparr>"


section \<open>Properties of the envelope encoder\<close>

subsection \<open>Chunking\<close>

lemma subarray_chunk:
  "k < length b \<Longrightarrow>
   subarray b k (k + MAXIMUM_SCRIPT_ELEMENT_SIZE) = take MAXIMUM_SCRIPT_ELEMENT_SIZE (drop k b)"
  by (auto simp: subarray_def min_def)

lemma chunk_loop_step:
  "k < length b \<Longrightarrow>
   chunk_loop b k acc =
   chunk_loop b (k + length (take MAXIMUM_SCRIPT_ELEMENT_SIZE (drop k b)))
     (acc @ [take MAXIMUM_SCRIPT_ELEMENT_SIZE (drop k b)])"
  by (subst chunk_loop.simps) (simp only: subarray_chunk if_True)

lemma chunk_loop_stop: "\<not> k < length b \<Longrightarrow> chunk_loop b k acc = acc"
  by (subst chunk_loop.simps) simp

lemma chunk_loop_concat:
  "k \<le> length b \<Longrightarrow> concat (chunk_loop b k acc) = concat acc @ drop k b"
proof (induction b k acc rule: chunk_loop.induct)
  case (1 b k acc)
  show ?case
  proof (cases "k < length b")
    case True
    define c where "c = take MAXIMUM_SCRIPT_ELEMENT_SIZE (drop k b)"
    have sub: "subarray b k (k + MAXIMUM_SCRIPT_ELEMENT_SIZE) = c"
      using True by (simp add: subarray_chunk c_def)
    have le: "k + length c \<le> length b" using True by (simp add: c_def)
    have rest: "drop (k + length c) b = drop MAXIMUM_SCRIPT_ELEMENT_SIZE (drop k b)"
      by (cases "MAXIMUM_SCRIPT_ELEMENT_SIZE \<le> length b - k")
         (simp_all add: c_def min_def add.commute)
    have "concat (chunk_loop b k acc) = concat (chunk_loop b (k + length c) (acc @ [c]))"
      using True by (simp only: chunk_loop_step [OF True] c_def)
    also have "\<dots> = concat (acc @ [c]) @ drop (k + length c) b"
      using "1.IH" [OF True] le by (simp only: sub)
    also have "\<dots> = concat acc @ (c @ drop MAXIMUM_SCRIPT_ELEMENT_SIZE (drop k b))"
      by (simp add: rest)
    also have "\<dots> = concat acc @ drop k b"
      by (simp only: c_def append_take_drop_id)
    finally show ?thesis .
  next
    case False
    with 1 show ?thesis by (simp add: chunk_loop_stop)
  qed
qed

lemma chunk_loop_bound:
  "\<forall>c \<in> set acc. length c \<le> MAXIMUM_SCRIPT_ELEMENT_SIZE \<Longrightarrow>
   \<forall>c \<in> set (chunk_loop b k acc). length c \<le> MAXIMUM_SCRIPT_ELEMENT_SIZE"
proof (induction b k acc rule: chunk_loop.induct)
  case (1 b k acc)
  show ?case
  proof (cases "k < length b")
    case True
    have "\<forall>c \<in> set (acc @ [subarray b k (k + MAXIMUM_SCRIPT_ELEMENT_SIZE)]).
            length c \<le> MAXIMUM_SCRIPT_ELEMENT_SIZE"
      using "1.prems" True by (simp add: subarray_chunk)
    from "1.IH" [OF True this] show ?thesis
      using True by (subst chunk_loop.simps) simp
  next
    case False
    with 1 show ?thesis by (simp add: chunk_loop_stop)
  qed
qed

lemma chunk_count_step:
  fixes n m :: nat
  assumes "0 < n" "0 < m"
  shows "Suc ((n - min m n + (m - 1)) div m) = (n + (m - 1)) div m"
proof (cases "m \<le> n")
  case True
  then have "n + (m - 1) = (n - m + (m - 1)) + m" by simp
  then have "(n + (m - 1)) div m = (n - m + (m - 1)) div m + 1"
    using assms by (metis div_add_self2 less_numeral_extra(3))
  with True show ?thesis by (simp add: min_def)
next
  case False
  obtain j where j: "n = Suc j" using assms by (cases n) auto
  with False have "j < m" by simp
  have "n + (m - 1) = m + j" using assms j by simp
  then have "(n + (m - 1)) div m = 1"
    using \<open>j < m\<close> assms by simp
  with False show ?thesis by (simp add: min_def)
qed

lemma chunk_loop_length:
  "k \<le> length b \<Longrightarrow>
   length (chunk_loop b k acc) =
   length acc
   + (length b - k + (MAXIMUM_SCRIPT_ELEMENT_SIZE - 1)) div MAXIMUM_SCRIPT_ELEMENT_SIZE"
proof (induction b k acc rule: chunk_loop.induct)
  case (1 b k acc)
  show ?case
  proof (cases "k < length b")
    case True
    define c where "c = take MAXIMUM_SCRIPT_ELEMENT_SIZE (drop k b)"
    have sub: "subarray b k (k + MAXIMUM_SCRIPT_ELEMENT_SIZE) = c"
      using True by (simp add: subarray_chunk c_def)
    have lc: "length c = min MAXIMUM_SCRIPT_ELEMENT_SIZE (length b - k)"
      by (simp add: c_def)
    have le: "k + length c \<le> length b" using True by (simp add: c_def)
    have "length (chunk_loop b k acc) = length (chunk_loop b (k + length c) (acc @ [c]))"
      by (simp only: chunk_loop_step [OF True] c_def)
    also have "\<dots> = length (acc @ [c]) +
        (length b - (k + length c) + (MAXIMUM_SCRIPT_ELEMENT_SIZE - 1))
          div MAXIMUM_SCRIPT_ELEMENT_SIZE"
      using "1.IH" [OF True] le by (simp only: sub)
    also have "\<dots> = length acc +
        Suc ((length b - k - min MAXIMUM_SCRIPT_ELEMENT_SIZE (length b - k)
              + (MAXIMUM_SCRIPT_ELEMENT_SIZE - 1)) div MAXIMUM_SCRIPT_ELEMENT_SIZE)"
      by (simp add: lc)
    also have "\<dots> = length acc +
        (length b - k + (MAXIMUM_SCRIPT_ELEMENT_SIZE - 1)) div MAXIMUM_SCRIPT_ELEMENT_SIZE"
      using True by (subst chunk_count_step) (simp_all add: MAXIMUM_SCRIPT_ELEMENT_SIZE_def)
    finally show ?thesis .
  next
    case False
    with 1 show ?thesis by (simp add: chunk_loop_stop MAXIMUM_SCRIPT_ELEMENT_SIZE_def)
  qed
qed

lemma ceiling_as_div:
  fixes n m :: nat
  assumes "0 < m"
  shows "int ((n + (m - 1)) div m) = \<lceil>real n / real m\<rceil>"
proof -
  define k where "k = (n + (m - 1)) div m"
  have up: "n \<le> k * m"
  proof -
    have "n + (m - 1) < (k + 1) * m"
      unfolding k_def using assms
      by (metis Suc_eq_plus1 dividend_less_div_times add.commute mult.commute mult_Suc)
    then show ?thesis using assms by (simp add: algebra_simps)
  qed
  have lo: "k * m < n + m"
  proof -
    have "k * m \<le> n + (m - 1)" unfolding k_def by simp
    then show ?thesis using assms by simp
  qed
  have "real n / real m \<le> real k"
    using up assms by (simp add: divide_le_eq flip: of_nat_mult)
  moreover have "real k - 1 < real n / real m"
  proof -
    have "real k * real m < real n + real m"
      using lo by (simp flip: of_nat_mult of_nat_add)
    then have "(real k - 1) * real m < real n" by (simp add: algebra_simps)
    then show ?thesis using assms by (simp add: less_divide_eq)
  qed
  ultimately have "\<lceil>real n / real m\<rceil> = int k"
    by (intro ceiling_unique) simp_all
  then show ?thesis by (simp add: k_def)
qed

text \<open>What \<open>chunkContent\<close> returns, for any content and encoding.\<close>

lemma chunkContent_concat:
  "concat (chunkContent content encoding) = Buffer_from content encoding"
  by (simp add: chunkContent_def chunk_loop_concat)

lemma chunkContent_count:
  "int (length (chunkContent content encoding)) =
   \<lceil>real (length (Buffer_from content encoding)) / real MAXIMUM_SCRIPT_ELEMENT_SIZE\<rceil>"
proof -
  have "0 < MAXIMUM_SCRIPT_ELEMENT_SIZE" by (simp add: MAXIMUM_SCRIPT_ELEMENT_SIZE_def)
  from ceiling_as_div [OF this, of "length (Buffer_from content encoding)"]
  show ?thesis by (simp add: chunkContent_def chunk_loop_length)
qed

lemma chunkContent_bound:
  "chunk \<in> set (chunkContent content encoding) \<Longrightarrow>
   length chunk \<le> MAXIMUM_SCRIPT_ELEMENT_SIZE"
  using chunk_loop_bound [of "[]" "Buffer_from content encoding" 0]
  by (simp add: chunkContent_def)

text \<open>
  C3. For every content, a Buffer or a string, and every encoding, with the maximum
  element size 520: the chunks of \<open>chunkContent\<close>, concatenated in order, are the
  content's bytes (the bytes of a Buffer, the UTF-8 bytes of a string read as "utf8", the
  decoded bytes of a string read as "base64"); there is no chunk when these bytes are
  none and \<open>ceil(L / 520)\<close> chunks when their number \<open>L\<close> is positive; and every
  chunk has at most 520 bytes.
\<close>

theorem chunkContent_roundtrip:
  "concat (chunkContent (Buf bytes) encoding) = bytes
   \<and> concat (chunkContent (Str s) Utf8) = map byte_of_char s
   \<and> concat (chunkContent (Str s) Base64) = base64_decode s
   \<and> concat (chunkContent content encoding) = Buffer_from content encoding
   \<and> (length (Buffer_from content encoding) = 0 \<longrightarrow> chunkContent content encoding = [])
   \<and> (0 < length (Buffer_from content encoding) \<longrightarrow>
        int (length (chunkContent content encoding))
        = \<lceil>real (length (Buffer_from content encoding)) / 520\<rceil>)
   \<and> (\<forall>chunk \<in> set (chunkContent content encoding). length chunk \<le> 520)"
proof (intro conjI impI ballI)
  show "concat (chunkContent (Buf bytes) encoding) = bytes"
    by (simp add: chunkContent_concat)
  show "concat (chunkContent (Str s) Utf8) = map byte_of_char s"
    by (simp add: chunkContent_concat)
  show "concat (chunkContent (Str s) Base64) = base64_decode s"
    by (simp add: chunkContent_concat)
  show "concat (chunkContent content encoding) = Buffer_from content encoding"
    by (rule chunkContent_concat)
  show "chunkContent content encoding = []" if "length (Buffer_from content encoding) = 0"
    using that by (simp add: chunkContent_def chunk_loop_stop)
  show "int (length (chunkContent content encoding))
        = \<lceil>real (length (Buffer_from content encoding)) / 520\<rceil>"
    using chunkContent_count [of content encoding]
    by (simp add: MAXIMUM_SCRIPT_ELEMENT_SIZE_def)
  show "length chunk \<le> 520" if "chunk \<in> set (chunkContent content encoding)" for chunk
    using chunkContent_bound [OF that] by (simp add: MAXIMUM_SCRIPT_ELEMENT_SIZE_def)
qed

theorem chunkContent_roundtrip_witness:
  "concat (chunkContent (Buf (replicate 1041 7)) Utf8) = replicate 1041 7
   \<and> length (chunkContent (Buf (replicate 1041 7)) Utf8) = 3
   \<and> length (chunkContent (Buf (replicate 1041 7)) Utf8 ! 2) \<le> 520
   \<and> chunkContent (Buf []) Utf8 = []
   \<and> concat (chunkContent (Str (replicate 521 CHR ''a'')) Utf8) = replicate 521 97
   \<and> length (chunkContent (Str (replicate 521 CHR ''a'')) Utf8) = 2
   \<and> concat (chunkContent (Str ''QUI='') Base64) = [65, 66]
   \<and> length (chunkContent (Str ''QUI='') Base64) = 1
   \<and> chunkContent (Str []) Base64 = []"
proof -
  let ?chunks = "chunkContent (Buf (replicate 1041 7)) Utf8"
  note buf = chunkContent_roundtrip [of "replicate 1041 7" Utf8 "[]" "Buf (replicate 1041 7)"]
  note str = chunkContent_roundtrip [of "[]" Utf8 "replicate 521 CHR ''a''"
      "Str (replicate 521 CHR ''a'')"]
  note b64 = chunkContent_roundtrip [of "[]" Base64 "''QUI=''" "Str ''QUI=''"]
  have dec: "base64_decode ''QUI='' = [65, 66]" "base64_decode [] = []"
    by code_simp+
  have a: "byte_of_char CHR ''a'' = 97" by (simp add: byte_of_char_def)
  have n: "length ?chunks = 3" using buf by simp
  then have "?chunks ! 2 \<in> set ?chunks" by simp
  with buf have "length (?chunks ! 2) \<le> 520" by blast
  moreover have "chunkContent (Buf []) Utf8 = []"
    using chunkContent_roundtrip [of "[]" Utf8 "[]" "Buf []"] by simp
  moreover have "concat (chunkContent (Str (replicate 521 CHR ''a'')) Utf8) = replicate 521 97"
    using str by (simp add: a)
  moreover have "length (chunkContent (Str (replicate 521 CHR ''a'')) Utf8) = 2"
    using str by simp
  moreover have "concat (chunkContent (Str ''QUI='') Base64) = [65, 66]"
    using b64 by (simp only: dec)
  moreover have "length (chunkContent (Str ''QUI='') Base64) = 1"
  proof -
    have "\<lceil>1 / 260 :: real\<rceil> = 1" by (rule ceiling_unique) simp_all
    with b64 show ?thesis by (simp add: dec)
  qed
  moreover have "chunkContent (Str []) Base64 = []"
    using chunkContent_roundtrip [of "[]" Base64 "[]" "Str []"] by (simp add: dec)
  ultimately show ?thesis using buf n by simp
qed

subsection \<open>Pushes that cannot fail\<close>

lemma and_then_Inr [simp]: "and_then (Inr x) f = f x"
  by (simp add: and_then_def)

lemma and_then_Inl [simp]: "and_then (Inl e) f = Inl e"
  by (simp add: and_then_def)

lemma opPush_Buf:
  "opPush (Buf b) =
   (if MAXIMUM_SCRIPT_ELEMENT_SIZE < length b then Inl OversizedElement else Inr b)"
  by (simp add: opPush_def)

lemma opPush_Str:
  "opPush (Str s) =
   (if MAXIMUM_SCRIPT_ELEMENT_SIZE < length s then Inl OversizedElement
    else Inr (map byte_of_char s))"
  by (simp add: opPush_def)

lemma map_result_opPush_small:
  "\<forall>c \<in> set cs. length c \<le> MAXIMUM_SCRIPT_ELEMENT_SIZE \<Longrightarrow>
   map_result opPush (map Buf cs) = Inr cs"
  by (induction cs) (simp_all add: opPush_Buf)

lemma opPush_chunks:
  "map_result opPush (map Buf (chunkContent content encoding)) =
   Inr (chunkContent content encoding)"
  by (rule map_result_opPush_small) (simp add: chunkContent_bound)

lemma opPush_DOB: "opPush (Str ''DOB'') = Inr (map byte_of_char ''DOB'')"
  by (simp add: opPush_Str MAXIMUM_SCRIPT_ELEMENT_SIZE_def)

lemma opPush_json_type:
  "opPush (Str ''application/json;charset=utf-8'') =
   Inr (map byte_of_char ''application/json;charset=utf-8'')"
  by (simp add: opPush_Str MAXIMUM_SCRIPT_ELEMENT_SIZE_def)

lemma metaStackElements_eq:
  "metaStackElements m =
   Inr (case m of
          MetaNotObject \<Rightarrow> []
        | MetaObject json \<Rightarrow>
            envelope_block (map byte_of_char ''DOB'')
              (map byte_of_char ''application/json;charset=utf-8'')
              (chunkContent (Str json) Utf8))"
  by (cases m)
     (simp_all add: metaStackElements_def opPush_DOB opPush_json_type opPush_chunks)

lemma multiContent_eq:
  "multiContent mt index content =
   (case mediaType_at mt index of
      None \<Rightarrow> Inl TypeError
    | Some t \<Rightarrow>
        if MAXIMUM_SCRIPT_ELEMENT_SIZE < length t then Inl OversizedElement
        else Inr (envelope_block (map byte_of_char ''DOB'') (map byte_of_char t)
                   (chunkContent content
                      (if \<not> string_includes t ''text'' then Base64 else Utf8))))"
  unfolding multiContent_def opPush_DOB opPush_chunks
  by (simp add: opPush_Str split: option.splits)

lemma map_result_Inr_iff:
  "map_result f xs = Inr ys \<longleftrightarrow> list_all2 (\<lambda>x y. f x = Inr y) xs ys"
proof (induction xs arbitrary: ys)
  case Nil
  show ?case by auto
next
  case (Cons x xs)
  show ?case
  proof (cases "f x")
    case (Inl e)
    then show ?thesis by (auto simp: list_all2_Cons1)
  next
    case fx: (Inr y)
    show ?thesis
    proof (cases "map_result f xs")
      case (Inl e)
      with fx Cons.IH show ?thesis by (auto simp: list_all2_Cons1)
    next
      case (Inr zs)
      with fx Cons.IH show ?thesis by (auto simp: list_all2_Cons1)
    qed
  qed
qed

lemma falsy_string_iff: "falsy_string x \<longleftrightarrow> x = None \<or> x = Some []"
  by (cases x) auto

lemma falsy_type_iff: "falsy_type x \<longleftrightarrow> x = None \<or> x = Some (TypeOne [])"
  by (cases x rule: falsy_type.cases) auto

lemma falsy_content_iff: "falsy_content x \<longleftrightarrow> x = None \<or> x = Some (One (Str []))"
  by (cases x rule: falsy_content.cases) auto


subsection \<open>The array branch\<close>

lemma CHECKSIG_not_in_block: "Op OP_CHECKSIG \<notin> set (envelope_block tag mt chunks)"
  by (auto simp: envelope_block_def OP_CHECKSIG_def OP_FALSE_def OP_IF_def OP_0_def
        OP_ENDIF_def)

lemma buildWitnessScript_batch:
  assumes "mediaContent options = Some (Many contents)"
      and "mediaType options = Some mt" and "\<not> falsy_type (Some mt)"
      and "xkey options = Some key" and "key \<noteq> []"
      and "\<not> recover options"
  shows "buildWitnessScript ToUint8 options =
         and_then
           (map_result (\<lambda>(index, content). multiContent mt index content)
              (zip [0 ..< length contents] contents))
           (\<lambda>multiContents.
              Inr ([Push (Buffer_from (Str key) Hex), Op OP_CHECKSIG]
                   @ concat multiContents))"
  using assms unfolding buildWitnessScript_def metaStackElements_eq by simp

lemma batch_blocks:
  assumes "map_result (\<lambda>(index, content). multiContent mt index content)
             (zip [0 ..< length contents] contents) = Inr blocks"
  shows "\<exists>types. length types = length contents
           \<and> (\<forall>i < length contents. mediaType_at mt i = Some (types ! i))
           \<and> blocks =
               map2 (\<lambda>t content.
                       envelope_block (map byte_of_char ''DOB'') (map byte_of_char t)
                         (chunkContent content
                            (if \<not> string_includes t ''text'' then Base64 else Utf8)))
                 types contents"
proof -
  let ?n = "length contents"
  from assms have all2:
    "list_all2
       (\<lambda>x y. (case x of (index, content) \<Rightarrow> multiContent mt index content) = Inr y)
       (zip [0 ..< ?n] contents) blocks"
    by (simp add: map_result_Inr_iff)
  then have len: "length blocks = ?n" by (auto dest: list_all2_lengthD)
  have each: "multiContent mt i (contents ! i) = Inr (blocks ! i)" if "i < ?n" for i
    using list_all2_nthD [OF all2, of i] that by simp
  define types where "types = map (\<lambda>i. the (mediaType_at mt i)) [0 ..< ?n]"
  have t: "mediaType_at mt i = Some (types ! i)
           \<and> blocks ! i =
               envelope_block (map byte_of_char ''DOB'') (map byte_of_char (types ! i))
                 (chunkContent (contents ! i)
                    (if \<not> string_includes (types ! i) ''text'' then Base64 else Utf8))"
    if i: "i < ?n" for i
  proof -
    obtain t0 where t0: "mediaType_at mt i = Some t0"
      and b: "blocks ! i =
               envelope_block (map byte_of_char ''DOB'') (map byte_of_char t0)
                 (chunkContent (contents ! i)
                    (if \<not> string_includes t0 ''text'' then Base64 else Utf8))"
    proof (cases "mediaType_at mt i")
      case None
      with each [OF i] show ?thesis by (simp add: multiContent_eq)
    next
      case (Some t0)
      show ?thesis
      proof (cases "MAXIMUM_SCRIPT_ELEMENT_SIZE < length t0")
        case True
        with Some each [OF i] show ?thesis by (simp add: multiContent_eq)
      next
        case False
        with Some each [OF i] that [of t0] show ?thesis
          by (simp only: multiContent_eq option.case if_False sum.inject)
      qed
    qed
    have "types ! i = t0" using i t0 by (simp add: types_def)
    with t0 b show ?thesis by simp
  qed
  have "blocks =
        map2 (\<lambda>t content.
                envelope_block (map byte_of_char ''DOB'') (map byte_of_char t)
                  (chunkContent content
                     (if \<not> string_includes t ''text'' then Base64 else Utf8)))
          types contents"
  proof (rule nth_equalityI)
    show "length blocks = length (map2 (\<lambda>t content.
                envelope_block (map byte_of_char ''DOB'') (map byte_of_char t)
                  (chunkContent content
                     (if \<not> string_includes t ''text'' then Base64 else Utf8)))
          types contents)"
      by (simp add: len types_def)
  next
    fix i assume "i < length blocks"
    then have i: "i < ?n" by (simp add: len)
    have lt: "length types = ?n" by (simp add: types_def)
    show "blocks ! i = map2 (\<lambda>t content.
                envelope_block (map byte_of_char ''DOB'') (map byte_of_char t)
                  (chunkContent content
                     (if \<not> string_includes t ''text'' then Base64 else Utf8)))
          types contents ! i"
      using t [OF i] i lt by (simp only: nth_map length_zip min.idem nth_zip split_conv)
  qed
  moreover have "length types = ?n" by (simp add: types_def)
  ultimately show ?thesis using t by blast
qed

lemma count_CHECKSIG_blocks:
  "\<forall>b \<in> set blocks. Op OP_CHECKSIG \<notin> set b \<Longrightarrow>
   count_list (concat blocks) (Op OP_CHECKSIG) = 0"
  by (induction blocks) simp_all


text \<open>The array branch returns a script when every item finds a media type of at most 520 bytes.\<close>

lemma batch_returns:
  assumes "mediaContent options = Some (Many contents)"
      and "mediaType options = Some mt" and "mt \<noteq> TypeOne []"
      and "xkey options = Some key" and "key \<noteq> []"
      and "\<not> recover options"
      and "\<forall>i < length contents. \<exists>t. mediaType_at mt i = Some t \<and> length t \<le> 520"
  shows "\<exists>script. buildWitnessScript ToUint8 options = Inr script"
proof -
  have nf: "\<not> falsy_type (Some mt)" using assms(3) by (simp add: falsy_type_iff)
  note eq = buildWitnessScript_batch [OF assms(1,2) nf assms(4,5,6), of ToUint8]
  define blocks where "blocks =
    map (\<lambda>i. envelope_block (map byte_of_char ''DOB'')
                (map byte_of_char (the (mediaType_at mt i)))
                (chunkContent (contents ! i)
                   (if \<not> string_includes (the (mediaType_at mt i)) ''text''
                    then Base64 else Utf8)))
      [0 ..< length contents]"
  have "list_all2
          (\<lambda>x y. (case x of (index, content) \<Rightarrow> multiContent mt index content) = Inr y)
          (zip [0 ..< length contents] contents) blocks"
  proof (rule list_all2_all_nthI)
    show "length (zip [0 ..< length contents] contents) = length blocks"
      by (simp add: blocks_def)
  next
    fix i assume "i < length (zip [0 ..< length contents] contents)"
    then have i: "i < length contents" by simp
    with assms(7) obtain t where t: "mediaType_at mt i = Some t" "length t \<le> 520"
      by blast
    then have "multiContent mt i (contents ! i) = Inr (blocks ! i)"
      using i by (simp add: multiContent_eq blocks_def MAXIMUM_SCRIPT_ELEMENT_SIZE_def)
    then show "(case zip [0 ..< length contents] contents ! i of
                  (index, content) \<Rightarrow> multiContent mt index content) = Inr (blocks ! i)"
      using i by simp
  qed
  then have "map_result (\<lambda>(index, content). multiContent mt index content)
               (zip [0 ..< length contents] contents) = Inr blocks"
    by (simp add: map_result_Inr_iff)
  then show ?thesis unfolding eq by simp
qed

text \<open>
  A scalar media type with an array content is read unit by unit: with the media type
  \<open>h\<close> followed by e-acute (one code unit, two bytes in UTF-8), two items get the
  media types \<open>68\<close> and \<open>c3 a9\<close>, and a third item finds \<open>undefined\<close>, on which
  \<open>includes\<close> is a \<open>TypeError\<close>.
\<close>

lemma batch_scalar_media_type:
  "buildWitnessScript ToUint8_NaN
     \<lparr>xkey = Some ''ab01'', mediaContent = Some (Many [Str ''QUI='', Str ''QUI='']),
      mediaType = Some (TypeOne [CHR ''h'', CHR 0xC3, CHR 0xA9]), meta = MetaNotObject,
      recover = False\<rparr>
   = Inr [Push [171, 1], Op 172,
          Op 0, Op 99, Push [68, 79, 66], Op 1, Op 1, Push [104], Op 0, Push [65, 66], Op 104,
          Op 0, Op 99, Push [68, 79, 66], Op 1, Op 1, Push [195, 169], Op 0, Push [65, 66],
          Op 104]
   \<and> buildWitnessScript ToUint8_NaN
     \<lparr>xkey = Some ''ab01'',
      mediaContent = Some (Many [Str ''QUI='', Str ''QUI='', Str ''QUI='']),
      mediaType = Some (TypeOne [CHR ''h'', CHR 0xC3, CHR 0xA9]), meta = MetaNotObject,
      recover = False\<rparr>
   = Inl TypeError"
  by code_simp

subsection \<open>The envelope of a single item\<close>

text \<open>
  C4. For every call of \<open>buildWitnessScript\<close> with one item, not in recover mode, with
  a non-empty media type, content and internal key: the script is the internal key and
  \<open>OP_CHECKSIG\<close>, then one block \<open>OP_FALSE OP_IF ... OP_ENDIF\<close> holding, in order, the
  push of the protocol tag, the two integers 1, the push of the media type, \<open>OP_0\<close> and
  the pushes of the content chunks; when \<open>meta\<close> is an object, a second block of the
  same shape follows, with the fixed content type \<open>application/json;charset=utf-8\<close> and
  the chunks of the JSON text. (A media type of more than 520 bytes is refused by
  \<open>opPush\<close>, and no envelope is emitted.)
\<close>

theorem single_item_envelope:
  assumes "mediaType options = Some (TypeOne mt)" and "mt \<noteq> []"
      and "mediaContent options = Some (One content)" and "content \<noteq> Str []"
      and "xkey options = Some key" and "key \<noteq> []"
      and "\<not> recover options"
  shows "buildWitnessScript ToUint8 options =
     (if 520 < length mt then Inl OversizedElement
      else Inr ([Push (Buffer_from (Str key) Hex), Op OP_CHECKSIG]
            @ ([Op OP_FALSE, Op OP_IF, Push (map byte_of_char ''DOB''), Op 1, Op 1,
                Push (map byte_of_char mt), Op OP_0]
               @ map Push (chunkContent content
                             (if \<not> string_includes mt ''text'' then Base64 else Utf8))
               @ [Op OP_ENDIF])
            @ (case meta options of
                 MetaNotObject \<Rightarrow> []
               | MetaObject json \<Rightarrow>
                   [Op OP_FALSE, Op OP_IF, Push (map byte_of_char ''DOB''), Op 1, Op 1,
                    Push (map byte_of_char ''application/json;charset=utf-8''), Op OP_0]
                   @ map Push (chunkContent (Str json) Utf8)
                   @ [Op OP_ENDIF])))"
proof -
  have "\<not> falsy_content (Some (One content))"
    using assms(4) by (simp add: falsy_content_iff)
  then show ?thesis
    using assms
    unfolding buildWitnessScript_def metaStackElements_eq opPush_chunks opPush_DOB
    by (simp add: opPush_Str envelope_block_def MAXIMUM_SCRIPT_ELEMENT_SIZE_def
          split: meta_value.splits)
qed

theorem single_item_envelope_witness:
  "buildWitnessScript ToUint8_NaN
     \<lparr>xkey = Some ''ab01'', mediaContent = Some (One (Str ''QUI='')),
      mediaType = Some (TypeOne ''image/png''), meta = MetaObject ''{}'',
      recover = False\<rparr>
   = Inr [Push [171, 1], Op 172,
          Op 0, Op 99, Push [68, 79, 66], Op 1, Op 1,
          Push [105, 109, 97, 103, 101, 47, 112, 110, 103], Op 0, Push [65, 66], Op 104,
          Op 0, Op 99, Push [68, 79, 66], Op 1, Op 1,
          Push [97, 112, 112, 108, 105, 99, 97, 116, 105, 111, 110, 47, 106, 115, 111, 110,
                59, 99, 104, 97, 114, 115, 101, 116, 61, 117, 116, 102, 45, 56],
          Op 0, Push [123, 125], Op 104]"
proof -
  let ?options = "\<lparr>xkey = Some ''ab01'', mediaContent = Some (One (Str ''QUI='')),
      mediaType = Some (TypeOne ''image/png''), meta = MetaObject ''{}'',
      recover = False\<rparr>"
  have chunks: "chunkContent (Str ''QUI='') Base64 = [[65, 66]]"
    "chunkContent (Str ''{}'') Utf8 = [[123, 125]]"
    by code_simp+
  have key: "Buffer_from (Str ''ab01'') Hex = [171, 1]" by code_simp
  have no_text: "\<not> string_includes ''image/png'' ''text''" by code_simp
  show ?thesis
    using single_item_envelope [of ?options "''image/png''" "Str ''QUI=''" "''ab01''" ToUint8_NaN]
    by (simp add: chunks key no_text byte_of_char_def OP_FALSE_def OP_IF_def OP_0_def
          OP_ENDIF_def OP_CHECKSIG_def del: Buffer_from.simps string_includes.simps)
qed

subsection \<open>The envelope of a batch\<close>

text \<open>
  C5. For every call of \<open>buildWitnessScript\<close> with an array as content (not in recover
  mode) that returns a script: the script is the internal key and \<open>OP_CHECKSIG\<close>, then
  one full block \<open>OP_FALSE OP_IF ... OP_ENDIF\<close> per item, in array order, each with the
  media type found at the item's index; \<open>OP_CHECKSIG\<close> stands nowhere else in it, so
  the prefix appears exactly once; and the script is the same whatever \<open>meta\<close> is, so
  no metadata block is emitted even for a metadata object.
\<close>

theorem batch_envelope:
  assumes "mediaContent options = Some (Many contents)"
      and "mediaType options = Some mt" and "xkey options = Some key"
      and "\<not> recover options"
      and "buildWitnessScript ToUint8 options = Inr script"
  shows "\<exists>types. length types = length contents
           \<and> (\<forall>i < length contents. mediaType_at mt i = Some (types ! i))
           \<and> script =
               [Push (Buffer_from (Str key) Hex), Op OP_CHECKSIG]
               @ concat
                   (map2 (\<lambda>t content.
                            [Op OP_FALSE, Op OP_IF, Push (map byte_of_char ''DOB''), Op 1, Op 1,
                             Push (map byte_of_char t), Op OP_0]
                            @ map Push (chunkContent content
                                          (if \<not> string_includes t ''text'' then Base64 else Utf8))
                            @ [Op OP_ENDIF])
                      types contents)
           \<and> count_list script (Op OP_CHECKSIG) = 1
           \<and> (\<forall>m. buildWitnessScript ToUint8 (options\<lparr>meta := m\<rparr>) = Inr script)"
proof -
  from assms(5) have
    "\<not> (falsy_type (mediaType options) \<or> falsy_content (mediaContent options)
        \<or> falsy_string (xkey options))"
    by (auto simp: buildWitnessScript_def)
  with assms(2,3) have nf: "\<not> falsy_type (Some mt)" and ne: "key \<noteq> []"
    by simp_all
  note eq = buildWitnessScript_batch [OF assms(1,2) nf assms(3) ne assms(4), of ToUint8]
  from assms(5) obtain blocks where
    blocks: "map_result (\<lambda>(index, content). multiContent mt index content)
               (zip [0 ..< length contents] contents) = Inr blocks"
    and script: "script = [Push (Buffer_from (Str key) Hex), Op OP_CHECKSIG] @ concat blocks"
    unfolding eq
    by (cases "map_result (\<lambda>(index, content). multiContent mt index content)
                 (zip [0 ..< length contents] contents)") auto
  from batch_blocks [OF blocks] obtain types where
    len: "length types = length contents"
    and at: "\<forall>i < length contents. mediaType_at mt i = Some (types ! i)"
    and b: "blocks =
            map2 (\<lambda>t content.
                    envelope_block (map byte_of_char ''DOB'') (map byte_of_char t)
                      (chunkContent content
                         (if \<not> string_includes t ''text'' then Base64 else Utf8)))
              types contents"
    by blast
  have "\<forall>blk \<in> set blocks. Op OP_CHECKSIG \<notin> set blk"
    unfolding b using CHECKSIG_not_in_block by (auto simp: set_zip)
  then have count: "count_list script (Op OP_CHECKSIG) = 1"
    by (simp add: script count_CHECKSIG_blocks)
  have indep: "buildWitnessScript ToUint8 (options\<lparr>meta := m\<rparr>) = Inr script" for m
  proof -
    have "buildWitnessScript ToUint8 (options\<lparr>meta := m\<rparr>)
          = buildWitnessScript ToUint8 options"
      unfolding eq
      by (rule buildWitnessScript_batch [where mt = mt and key = key])
         (use assms nf ne in simp_all)
    with assms(5) show ?thesis by simp
  qed
  have "script =
        [Push (Buffer_from (Str key) Hex), Op OP_CHECKSIG]
        @ concat
            (map2 (\<lambda>t content.
                     [Op OP_FALSE, Op OP_IF, Push (map byte_of_char ''DOB''), Op 1, Op 1,
                      Push (map byte_of_char t), Op OP_0]
                     @ map Push (chunkContent content
                                   (if \<not> string_includes t ''text'' then Base64 else Utf8))
                     @ [Op OP_ENDIF])
               types contents)"
    unfolding script b envelope_block_def by (rule refl)
  with len at count indep show ?thesis by blast
qed

theorem batch_envelope_witness:
  "count_list
     [Push [171, 1], Op 172,
      Op 0, Op 99, Push [68, 79, 66], Op 1, Op 1,
      Push [105, 109, 97, 103, 101, 47, 112, 110, 103], Op 0, Push [65, 66], Op 104,
      Op 0, Op 99, Push [68, 79, 66], Op 1, Op 1,
      Push [116, 101, 120, 116, 47, 112, 108, 97, 105, 110], Op 0, Push [104, 105], Op 104]
     (Op OP_CHECKSIG) = 1
   \<and> buildWitnessScript ToUint8_NaN
       \<lparr>xkey = Some ''ab01'', mediaContent = Some (Many [Str ''QUI='', Str ''hi'']),
        mediaType = Some (TypeMany [''image/png'', ''text/plain'']),
        meta = MetaObject ''{}'', recover = False\<rparr>
     = Inr [Push [171, 1], Op 172,
            Op 0, Op 99, Push [68, 79, 66], Op 1, Op 1,
            Push [105, 109, 97, 103, 101, 47, 112, 110, 103], Op 0, Push [65, 66], Op 104,
            Op 0, Op 99, Push [68, 79, 66], Op 1, Op 1,
            Push [116, 101, 120, 116, 47, 112, 108, 97, 105, 110], Op 0, Push [104, 105],
            Op 104]"
proof -
  let ?options = "\<lparr>xkey = Some ''ab01'', mediaContent = Some (Many [Str ''QUI='', Str ''hi'']),
        mediaType = Some (TypeMany [''image/png'', ''text/plain'']),
        meta = MetaNotObject, recover = False\<rparr>"
  let ?script = "[Push [171, 1], Op 172,
      Op 0, Op 99, Push [68, 79, 66], Op 1, Op 1,
      Push [105, 109, 97, 103, 101, 47, 112, 110, 103], Op 0, Push [65, 66], Op 104,
      Op 0, Op 99, Push [68, 79, 66], Op 1, Op 1,
      Push [116, 101, 120, 116, 47, 112, 108, 97, 105, 110], Op 0, Push [104, 105], Op 104]"
  have run: "buildWitnessScript ToUint8_NaN ?options = Inr ?script"
    by code_simp
  have h: "mediaContent ?options = Some (Many [Str ''QUI='', Str ''hi''])"
    "mediaType ?options = Some (TypeMany [''image/png'', ''text/plain''])"
    "xkey ?options = Some ''ab01''" "\<not> recover ?options"
    by simp_all
  from batch_envelope [OF h run] obtain types where
    "count_list ?script (Op OP_CHECKSIG) = 1"
    and "\<forall>m. buildWitnessScript ToUint8_NaN (?options\<lparr>meta := m\<rparr>) = Inr ?script"
    by blast
  then have "count_list ?script (Op OP_CHECKSIG) = 1"
    and "buildWitnessScript ToUint8_NaN (?options\<lparr>meta := MetaObject ''{}''\<rparr>) = Inr ?script"
    by blast+
  then show ?thesis by simp
qed

text \<open>
  C6, as stated: the bytes of a batch item whose media type does not indicate text are
  base64-encoded before they are chunked. The source passes \<open>"base64"\<close> to
  \<open>Buffer.from\<close> as the encoding of its argument: a Buffer item (\<open>AB\<close> below) is
  pushed as it is, and a string item (\<open>QUI=\<close>, the base64 text of \<open>AB\<close>) is decoded
  to the bytes it stands for. Neither push is the base64 text that the statement
  describes (\<open>QUI=\<close> and \<open>UVVJPQ==\<close>).
\<close>

theorem batch_item_base64_counterexample:
  "buildWitnessScript ToUint8_NaN
     \<lparr>xkey = Some ''ab01'', mediaContent = Some (Many [Buf [65, 66], Str ''QUI='']),
      mediaType = Some (TypeMany [''image/png'', ''image/png'']), meta = MetaNotObject,
      recover = False\<rparr>
   = Inr [Push [171, 1], Op 172,
          Op 0, Op 99, Push [68, 79, 66], Op 1, Op 1,
          Push [105, 109, 97, 103, 101, 47, 112, 110, 103], Op 0, Push [65, 66], Op 104,
          Op 0, Op 99, Push [68, 79, 66], Op 1, Op 1,
          Push [105, 109, 97, 103, 101, 47, 112, 110, 103], Op 0, Push [65, 66], Op 104]
   \<and> map Push (item_chunks_as_claimed ''image/png'' (Buf [65, 66]))
       = [Push [81, 85, 73, 61]]
   \<and> map Push (item_chunks_as_claimed ''image/png'' (Str ''QUI=''))
       = [Push [85, 86, 86, 74, 80, 81, 61, 61]]"
  by code_simp

text \<open>
  C6, amended. For every item of a batch that \<open>buildWitnessScript\<close> turns into a script:
  when its media type does not include \<open>text\<close>, the item is read by \<open>Buffer.from\<close>
  with the base64 encoding (a string as base64 text, decoded to the bytes it stands for; a
  Buffer unchanged), and these bytes are chunked into the pushes of the item's block;
  when its media type includes \<open>text\<close>, the UTF-8 bytes of the string are chunked, with
  no base64 step.
\<close>

theorem batch_item_encoding:
  assumes "mediaContent options = Some (Many contents)"
      and "mediaType options = Some mt" and "xkey options = Some key"
      and "\<not> recover options"
      and "buildWitnessScript ToUint8 options = Inr script"
      and "i < length contents"
  shows "\<exists>blocks t chunks.
           script = [Push (Buffer_from (Str key) Hex), Op OP_CHECKSIG] @ concat blocks
           \<and> length blocks = length contents
           \<and> mediaType_at mt i = Some t
           \<and> blocks ! i =
               [Op OP_FALSE, Op OP_IF, Push (map byte_of_char ''DOB''), Op 1, Op 1,
                Push (map byte_of_char t), Op OP_0] @ map Push chunks @ [Op OP_ENDIF]
           \<and> chunks = chunkContent (contents ! i)
                         (if string_includes t ''text'' then Utf8 else Base64)
           \<and> concat chunks =
               (case contents ! i of
                  Buf b \<Rightarrow> b
                | Str s \<Rightarrow>
                    if string_includes t ''text'' then map byte_of_char s
                    else base64_decode s)"
proof -
  from assms(5) have
    "\<not> (falsy_type (mediaType options) \<or> falsy_content (mediaContent options)
        \<or> falsy_string (xkey options))"
    by (auto simp: buildWitnessScript_def)
  with assms(2,3) have nf: "\<not> falsy_type (Some mt)" and ne: "key \<noteq> []"
    by simp_all
  note eq = buildWitnessScript_batch [OF assms(1,2) nf assms(3) ne assms(4), of ToUint8]
  from assms(5) obtain blocks where
    blocks: "map_result (\<lambda>(index, content). multiContent mt index content)
               (zip [0 ..< length contents] contents) = Inr blocks"
    and script: "script = [Push (Buffer_from (Str key) Hex), Op OP_CHECKSIG] @ concat blocks"
    unfolding eq
    by (cases "map_result (\<lambda>(index, content). multiContent mt index content)
                 (zip [0 ..< length contents] contents)") auto
  from batch_blocks [OF blocks] obtain types where
    len: "length types = length contents"
    and at: "\<forall>i < length contents. mediaType_at mt i = Some (types ! i)"
    and b: "blocks =
            map2 (\<lambda>t content.
                    envelope_block (map byte_of_char ''DOB'') (map byte_of_char t)
                      (chunkContent content
                         (if \<not> string_includes t ''text'' then Base64 else Utf8)))
              types contents"
    by blast
  define t where "t = types ! i"
  define enc where "enc = (if string_includes t ''text'' then Utf8 else Base64)"
  have lb: "length blocks = length contents" by (simp add: b len)
  have bi: "blocks ! i =
            [Op OP_FALSE, Op OP_IF, Push (map byte_of_char ''DOB''), Op 1, Op 1,
             Push (map byte_of_char t), Op OP_0]
            @ map Push (chunkContent (contents ! i) enc) @ [Op OP_ENDIF]"
    using assms(6) len by (simp add: b envelope_block_def t_def enc_def)
  have cc: "concat (chunkContent (contents ! i) enc) =
            (case contents ! i of
               Buf b \<Rightarrow> b
             | Str s \<Rightarrow>
                 if string_includes t ''text'' then map byte_of_char s else base64_decode s)"
    by (cases "contents ! i") (simp_all add: chunkContent_concat enc_def)
  from at assms(6) have "mediaType_at mt i = Some t" by (simp add: t_def)
  with script lb bi cc show ?thesis unfolding enc_def by blast
qed

theorem batch_item_encoding_witness:
  "\<exists>blocks chunks.
     [Push [171, 1], Op 172,
      Op 0, Op 99, Push [68, 79, 66], Op 1, Op 1,
      Push [105, 109, 97, 103, 101, 47, 112, 110, 103], Op 0, Push [65, 66], Op 104,
      Op 0, Op 99, Push [68, 79, 66], Op 1, Op 1,
      Push [116, 101, 120, 116, 47, 112, 108, 97, 105, 110], Op 0, Push [104, 105], Op 104]
     = [Push [171, 1], Op OP_CHECKSIG] @ concat blocks
     \<and> length blocks = 2
     \<and> blocks ! 0 =
         [Op OP_FALSE, Op OP_IF, Push (map byte_of_char ''DOB''), Op 1, Op 1,
          Push (map byte_of_char ''image/png''), Op OP_0]
         @ map Push chunks @ [Op OP_ENDIF]
     \<and> chunks = chunkContent (Str ''QUI='') Base64
     \<and> concat chunks = [65, 66]"
proof -
  let ?options = "\<lparr>xkey = Some ''ab01'', mediaContent = Some (Many [Str ''QUI='', Str ''hi'']),
        mediaType = Some (TypeMany [''image/png'', ''text/plain'']),
        meta = MetaNotObject, recover = False\<rparr>"
  let ?script = "[Push [171, 1], Op 172,
      Op 0, Op 99, Push [68, 79, 66], Op 1, Op 1,
      Push [105, 109, 97, 103, 101, 47, 112, 110, 103], Op 0, Push [65, 66], Op 104,
      Op 0, Op 99, Push [68, 79, 66], Op 1, Op 1,
      Push [116, 101, 120, 116, 47, 112, 108, 97, 105, 110], Op 0, Push [104, 105], Op 104]"
  have run: "buildWitnessScript ToUint8_NaN ?options = Inr ?script"
    by code_simp
  have key: "Buffer_from (Str ''ab01'') Hex = [171, 1]" by code_simp
  have no_text: "string_includes ''image/png'' ''text'' = False" by code_simp
  have dec: "base64_decode ''QUI='' = [65, 66]" by code_simp
  have h: "mediaContent ?options = Some (Many [Str ''QUI='', Str ''hi''])"
    "mediaType ?options = Some (TypeMany [''image/png'', ''text/plain''])"
    "xkey ?options = Some ''ab01''" "\<not> recover ?options"
    by simp_all
  have i: "0 < length [Str ''QUI='', Str ''hi'']" by simp
  from batch_item_encoding [OF h run i] obtain blocks t chunks where
    s: "?script = [Push (Buffer_from (Str ''ab01'') Hex), Op OP_CHECKSIG] @ concat blocks"
    and l: "length blocks = length [Str ''QUI='', Str ''hi'']"
    and t: "mediaType_at (TypeMany [''image/png'', ''text/plain'']) 0 = Some t"
    and b: "blocks ! 0 =
            [Op OP_FALSE, Op OP_IF, Push (map byte_of_char ''DOB''), Op 1, Op 1,
             Push (map byte_of_char t), Op OP_0] @ map Push chunks @ [Op OP_ENDIF]"
    and c: "chunks = chunkContent ([Str ''QUI='', Str ''hi''] ! 0)
                       (if string_includes t ''text'' then Utf8 else Base64)"
    and cc: "concat chunks =
             (case [Str ''QUI='', Str ''hi''] ! 0 of
                Buf b \<Rightarrow> b
              | Str s \<Rightarrow>
                  if string_includes t ''text'' then map byte_of_char s
                  else base64_decode s)"
    by blast
  from t have t': "t = ''image/png''" by simp
  have "?script = [Push [171, 1], Op OP_CHECKSIG] @ concat blocks"
    using s unfolding key .
  moreover have "length blocks = 2" using l by simp
  moreover have "blocks ! 0 =
         [Op OP_FALSE, Op OP_IF, Push (map byte_of_char ''DOB''), Op 1, Op 1,
          Push (map byte_of_char ''image/png''), Op OP_0]
         @ map Push chunks @ [Op OP_ENDIF]"
    using b unfolding t' .
  moreover have "chunks = chunkContent (Str ''QUI='') Base64"
    using c unfolding t' no_text by simp
  moreover have "concat chunks = [65, 66]"
    using cc unfolding t' no_text by (simp add: dec)
  ultimately show ?thesis by blast
qed

subsection \<open>The missing-field check in recover mode\<close>

text \<open>
  C9, as stated: in recover mode, a media type, content or internal key that is absent
  or empty makes the call fail with \<open>MissingField\<close>. The source's test is \<open>!x\<close>,
  and an array or a Buffer is never falsy: with an empty array as content, with an empty
  array as media type, and with an empty Buffer as content, the call returns the recovery
  script.
\<close>

theorem recover_empty_counterexample:
  "buildWitnessScript ToUint8_NaN
     \<lparr>xkey = Some ''ab01'', mediaContent = Some (Many []),
      mediaType = Some (TypeOne ''image/png''), meta = MetaNotObject, recover = True\<rparr>
   = Inr [Push [171, 1], Op 172]
   \<and> buildWitnessScript ToUint8_NaN
     \<lparr>xkey = Some ''ab01'', mediaContent = Some (One (Str ''QUI='')),
      mediaType = Some (TypeMany []), meta = MetaNotObject, recover = True\<rparr>
   = Inr [Push [171, 1], Op 172]
   \<and> buildWitnessScript ToUint8_NaN
     \<lparr>xkey = Some ''ab01'', mediaContent = Some (One (Buf [])),
      mediaType = Some (TypeOne ''image/png''), meta = MetaNotObject, recover = True\<rparr>
   = Inr [Push [171, 1], Op 172]"
  by code_simp

text \<open>
  C9, amended. For every call of \<open>buildWitnessScript\<close> with \<open>recover = true\<close>: when the
  media type, the content or the internal key is absent or the empty string, the call
  fails with \<open>MissingField\<close>; otherwise, and so also for an empty array or an empty
  Buffer, it returns the recovery script, the internal key and \<open>OP_CHECKSIG\<close>, in which
  neither the media type nor the content appears.
\<close>

theorem recover_missing_field:
  assumes "recover options"
  shows "(mediaType options = None \<or> mediaType options = Some (TypeOne [])
          \<or> mediaContent options = None \<or> mediaContent options = Some (One (Str []))
          \<or> xkey options = None \<or> xkey options = Some []
          \<longrightarrow> buildWitnessScript ToUint8 options = Inl MissingField)
       \<and> (\<not> (mediaType options = None \<or> mediaType options = Some (TypeOne [])
          \<or> mediaContent options = None \<or> mediaContent options = Some (One (Str []))
          \<or> xkey options = None \<or> xkey options = Some [])
          \<longrightarrow> (\<exists>key. xkey options = Some key
                \<and> buildWitnessScript ToUint8 options =
                    Inr [Push (Buffer_from (Str key) Hex), Op OP_CHECKSIG]))"
proof (intro conjI impI)
  assume "mediaType options = None \<or> mediaType options = Some (TypeOne [])
          \<or> mediaContent options = None \<or> mediaContent options = Some (One (Str []))
          \<or> xkey options = None \<or> xkey options = Some []"
  then have "falsy_type (mediaType options) \<or> falsy_content (mediaContent options)
         \<or> falsy_string (xkey options)"
    by (simp only: falsy_type_iff falsy_content_iff falsy_string_iff) blast
  then show "buildWitnessScript ToUint8 options = Inl MissingField"
    by (simp add: buildWitnessScript_def)
next
  assume n: "\<not> (mediaType options = None \<or> mediaType options = Some (TypeOne [])
          \<or> mediaContent options = None \<or> mediaContent options = Some (One (Str []))
          \<or> xkey options = None \<or> xkey options = Some [])"
  then have nf: "\<not> (falsy_type (mediaType options) \<or> falsy_content (mediaContent options)
         \<or> falsy_string (xkey options))"
    by (simp only: falsy_type_iff falsy_content_iff falsy_string_iff) blast
  from n obtain key mc mt where "xkey options = Some key" "mediaContent options = Some mc"
    "mediaType options = Some mt" by auto
  with nf assms show "\<exists>key. xkey options = Some key
       \<and> buildWitnessScript ToUint8 options =
           Inr [Push (Buffer_from (Str key) Hex), Op OP_CHECKSIG]"
    by (simp add: buildWitnessScript_def)
qed

theorem recover_missing_field_witness:
  "buildWitnessScript ToUint8_NaN
     \<lparr>xkey = Some ''ab01'', mediaContent = Some (One (Str ''QUI='')),
      mediaType = Some (TypeOne ''''), meta = MetaNotObject, recover = True\<rparr>
   = Inl MissingField
   \<and> buildWitnessScript ToUint8_NaN
     \<lparr>xkey = Some ''ab01'', mediaContent = None,
      mediaType = Some (TypeOne ''image/png''), meta = MetaNotObject, recover = True\<rparr>
   = Inl MissingField
   \<and> buildWitnessScript ToUint8_NaN
     \<lparr>xkey = Some ''ab01'', mediaContent = Some (One (Str ''QUI='')),
      mediaType = Some (TypeOne ''image/png''), meta = MetaNotObject, recover = True\<rparr>
   = Inr [Push [171, 1], Op 172]"
proof -
  have key: "Buffer_from (Str ''ab01'') Hex = [171, 1]" by code_simp
  show ?thesis
    using recover_missing_field [of "\<lparr>xkey = Some ''ab01'', mediaContent = Some (One (Str ''QUI='')),
      mediaType = Some (TypeOne ''''), meta = MetaNotObject, recover = True\<rparr>" ToUint8_NaN]
      recover_missing_field [of "\<lparr>xkey = Some ''ab01'', mediaContent = None,
      mediaType = Some (TypeOne ''image/png''), meta = MetaNotObject, recover = True\<rparr>" ToUint8_NaN]
      recover_missing_field [of "\<lparr>xkey = Some ''ab01'', mediaContent = Some (One (Str ''QUI='')),
      mediaType = Some (TypeOne ''image/png''), meta = MetaNotObject, recover = True\<rparr>" ToUint8_NaN]
    by (simp add: key OP_CHECKSIG_def del: Buffer_from.simps)
qed


section \<open>Properties of the PSBT assembler\<close>

lemma processInput_outpoint:
  "processInput env utxo pubKey net sighash wits = Inr payload \<Longrightarrow>
   input_hash payload = txid utxo \<and> input_index payload = n utxo"
  unfolding processInput_def Let_def generateTaprootInput_def generateSegwitInput_def
    generateNestedSegwitInput_def generateLegacyInput_def and_then_def
  by (auto split: if_splits sum.splits option.splits)

lemma setInputSequence_Inr:
  "setInputSequence psbt i s = Inr psbt' \<Longrightarrow>
   i < length (psbt_inputs psbt)
   \<and> psbt_inputs psbt' = (psbt_inputs psbt)[i := (fst (psbt_inputs psbt ! i), s)]
   \<and> psbt_outputs psbt' = psbt_outputs psbt"
  by (auto simp: setInputSequence_def split: if_splits)

lemma map_fst_update:
  "i < length xs \<Longrightarrow>
   map (\<lambda>(inp, s). g inp) (xs[i := (fst (xs ! i), s')]) = map (\<lambda>(inp, s). g inp) xs"
  by (induction xs arbitrary: i) (auto split: nat.splits simp: case_prod_beta)

lemma add_inputs_outpoints:
  "add_inputs env pubKey net addr enableRBF ius psbt = Inr psbt' \<Longrightarrow>
   map (\<lambda>(inp, s). (input_hash inp, input_index inp)) (psbt_inputs psbt') =
   map (\<lambda>(inp, s). (input_hash inp, input_index inp)) (psbt_inputs psbt)
   @ map (\<lambda>(i, u). (txid u, n u))
       (filter (\<lambda>(i, u). spk_address (scriptPubKey u) = addr) ius)
   \<and> psbt_outputs psbt' = psbt_outputs psbt"
proof (induction ius arbitrary: psbt)
  case Nil
  then show ?case by simp
next
  case (Cons iu ius)
  obtain index utxo where iu: "iu = (index, utxo)" by (cases iu)
  show ?case
  proof (cases "spk_address (scriptPubKey utxo) = addr")
    case False
    with Cons iu show ?thesis by simp
  next
    case True
    from Cons.prems True iu obtain payload psbt1 where
      p: "processInput env utxo pubKey net None None = Inr payload"
      and s: "(if enableRBF then setInputSequence (addInput psbt payload) index 0xfffffffd
               else Inr (addInput psbt payload)) = Inr psbt1"
      and r: "add_inputs env pubKey net addr enableRBF ius psbt1 = Inr psbt'"
      by (auto simp: and_then_def split: sum.splits)
    have o1: "map (\<lambda>(inp, s). (input_hash inp, input_index inp)) (psbt_inputs psbt1) =
              map (\<lambda>(inp, s). (input_hash inp, input_index inp)) (psbt_inputs psbt)
              @ [(txid utxo, n utxo)]
              \<and> psbt_outputs psbt1 = psbt_outputs psbt"
    proof (cases enableRBF)
      case False
      with s have "psbt1 = addInput psbt payload" by simp
      then show ?thesis using processInput_outpoint [OF p] by (simp add: addInput_def)
    next
      case True
      with s have "setInputSequence (addInput psbt payload) index 0xfffffffd = Inr psbt1"
        by simp
      from setInputSequence_Inr [OF this]
      have i: "index < length (psbt_inputs psbt @ [(payload, DEFAULT_SEQUENCE)])"
        and e: "psbt_inputs psbt1 =
                (psbt_inputs psbt @ [(payload, DEFAULT_SEQUENCE)])
                  [index := (fst ((psbt_inputs psbt @ [(payload, DEFAULT_SEQUENCE)]) ! index),
                             0xfffffffd)]"
        and o: "psbt_outputs psbt1 = psbt_outputs psbt"
        by (simp_all add: addInput_def)
      have "map (\<lambda>(inp, s). (input_hash inp, input_index inp)) (psbt_inputs psbt1) =
            map (\<lambda>(inp, s). (input_hash inp, input_index inp))
              (psbt_inputs psbt @ [(payload, DEFAULT_SEQUENCE)])"
        unfolding e by (rule map_fst_update [OF i])
      with o processInput_outpoint [OF p] show ?thesis by simp
    qed
    from Cons.IH [OF r] o1 True iu show ?thesis by simp
  qed
qed

lemma add_inputs_sequence:
  "add_inputs env pubKey net addr True (zip [k ..< k + length us] us) psbt = Inr psbt' \<Longrightarrow>
   length (psbt_inputs psbt) \<le> k \<Longrightarrow>
   \<forall>x \<in> set (psbt_inputs psbt). snd x = 0xfffffffd \<Longrightarrow>
   \<forall>x \<in> set (psbt_inputs psbt'). snd x = 0xfffffffd"
proof (induction us arbitrary: k psbt)
  case Nil
  then show ?case by simp
next
  case (Cons utxo us)
  have z: "zip [k ..< k + length (utxo # us)] (utxo # us) =
           (k, utxo) # zip [Suc k ..< Suc k + length us] us"
    by (simp add: upt_conv_Cons del: upt_Suc)
  show ?case
  proof (cases "spk_address (scriptPubKey utxo) = addr")
    case False
    with Cons.prems(1) have
      "add_inputs env pubKey net addr True (zip [Suc k ..< Suc k + length us] us) psbt
       = Inr psbt'"
      unfolding z by simp
    from Cons.IH [OF this] Cons.prems(2,3) show ?thesis by simp
  next
    case True
    from Cons.prems(1) True obtain payload psbt1 where
      s: "setInputSequence (addInput psbt payload) k 0xfffffffd = Inr psbt1"
      and r: "add_inputs env pubKey net addr True
                (zip [Suc k ..< Suc k + length us] us) psbt1 = Inr psbt'"
      unfolding z by (auto simp: and_then_def split: sum.splits)
    from setInputSequence_Inr [OF s] Cons.prems(2)
    have len: "length (psbt_inputs psbt) = k"
      by (simp add: addInput_def)
    from setInputSequence_Inr [OF s]
    have ins: "psbt_inputs psbt1 = psbt_inputs psbt @ [(payload, 0xfffffffd)]"
      by (simp add: addInput_def len [symmetric] list_update_append)
    from ins len Cons.prems(3) have
      "length (psbt_inputs psbt1) \<le> Suc k"
      "\<forall>x \<in> set (psbt_inputs psbt1). snd x = 0xfffffffd"
      by auto
    from Cons.IH [OF r this] show ?thesis .
  qed
qed

lemma foldl_addOutput:
  "psbt_inputs (foldl addOutput psbt outs) = psbt_inputs psbt
   \<and> psbt_outputs (foldl addOutput psbt outs) = psbt_outputs psbt @ outs"
  by (induction outs arbitrary: psbt) (simp_all add: addOutput_def)

lemma createPsbt_Inr:
  assumes "createPsbt env pubKey net addr outs satsPerByte mode enableRBF = Inr psbt"
  obtains unspent psbt0 where
    "fetchUnspentUTXOs env addr net (mode = Off) = Inr unspent"
    "add_inputs env pubKey net addr enableRBF
       (zip [0 ..< length (spendableUTXOs unspent)] (spendableUTXOs unspent)) new_Psbt
     = Inr psbt0"
    "0 \<le> sum_list (map sats (spendableUTXOs unspent
                               @ (if mode = Off then unspendableUTXOs unspent else [])))
          - sum_list (map cardinals outs) - estimateFee env psbt0 satsPerByte net"
    "psbt =
     foldl addOutput psbt0
       (if sum_list (map sats (spendableUTXOs unspent
                                @ (if mode = Off then unspendableUTXOs unspent else [])))
           - sum_list (map cardinals outs) - estimateFee env psbt0 satsPerByte net
           > MINIMUM_AMOUNT_IN_SATS env
        then outs @
             [\<lparr>to_address = addr,
               cardinals =
                 sum_list (map sats (spendableUTXOs unspent
                                      @ (if mode = Off then unspendableUTXOs unspent else [])))
                 - sum_list (map cardinals outs) - estimateFee env psbt0 satsPerByte net\<rparr>]
        else outs)"
proof -
  from assms have ne: "length outs \<noteq> 0"
    by (auto simp: createPsbt_def)
  from assms ne obtain unspent where
    f: "fetchUnspentUTXOs env addr net (mode = Off) = Inr unspent"
    by (cases "fetchUnspentUTXOs env addr net (mode = Off)")
       (auto simp: createPsbt_def)
  from assms ne f have t: "totalUTXOs unspent \<noteq> 0"
    by (cases "totalUTXOs unspent = 0") (simp_all add: createPsbt_def)
  from assms ne f t obtain psbt0 where
    a: "add_inputs env pubKey net addr enableRBF
          (zip [0 ..< length (spendableUTXOs unspent)] (spendableUTXOs unspent)) new_Psbt
        = Inr psbt0"
    by (cases "add_inputs env pubKey net addr enableRBF
          (zip [0 ..< length (spendableUTXOs unspent)] (spendableUTXOs unspent)) new_Psbt")
       (auto simp: createPsbt_def Let_def)
  from assms ne f t a show ?thesis
    by (intro that [of unspent psbt0])
       (auto simp: createPsbt_def Let_def split: if_splits)
qed

lemma demo_run_rbf:
  "createPsbt
     (demo_env [demo_utxo ''aa'' 0 1000 ''funding'', demo_utxo ''bb'' 1 5000 ''other'']
               [demo_utxo ''cc'' 2 10000 ''funding''])
     ''02ab'' ''testnet'' ''funding'' [\<lparr>to_address = ''dest'', cardinals = 2000\<rparr>] 1 Off True
   = Inr \<lparr>psbt_inputs = [(SegwitInput ''aa'' 0 [0, 20, 171] 1000 None, 4294967293)],
          psbt_outputs = [\<lparr>to_address = ''dest'', cardinals = 2000\<rparr>,
                          \<lparr>to_address = ''funding'', cardinals = 13900\<rparr>]\<rparr>"
  by (simp add: createPsbt_def demo_env_def demo_utxo_def processInput_def
        generateSegwitInput_def spread_sighashType_def new_Psbt_def addInput_def setInputSequence_def addOutput_def
        DEFAULT_SEQUENCE_def unhex_def upt_conv_Cons)

text \<open>
  C7, as stated: with replace-by-fee requested, each added input's sequence number is one
  below the maximum sequence value, that is \<open>0xfffffffe\<close>. The source sets
  \<open>0xfffffffd\<close>, two below the maximum: the run below has one input, with the sequence
  number 4294967293.
\<close>

theorem rbf_sequence_counterexample:
  "createPsbt
     (demo_env [demo_utxo ''aa'' 0 1000 ''funding'', demo_utxo ''bb'' 1 5000 ''other'']
               [demo_utxo ''cc'' 2 10000 ''funding''])
     ''02ab'' ''testnet'' ''funding'' [\<lparr>to_address = ''dest'', cardinals = 2000\<rparr>] 1 Off True
   = Inr \<lparr>psbt_inputs = [(SegwitInput ''aa'' 0 [0, 20, 171] 1000 None, 4294967293)],
          psbt_outputs = [\<lparr>to_address = ''dest'', cardinals = 2000\<rparr>,
                          \<lparr>to_address = ''funding'', cardinals = 13900\<rparr>]\<rparr>
   \<and> DEFAULT_SEQUENCE - 1 = 4294967294
   \<and> (4294967293 :: nat) \<noteq> DEFAULT_SEQUENCE - 1"
  by (simp add: createPsbt_def demo_env_def demo_utxo_def processInput_def
        generateSegwitInput_def spread_sighashType_def new_Psbt_def addInput_def setInputSequence_def addOutput_def
        DEFAULT_SEQUENCE_def unhex_def upt_conv_Cons)

text \<open>
  C7, amended. For every call of \<open>createPsbt\<close> with replace-by-fee requested that
  returns a PSBT, each input's sequence number is \<open>0xfffffffd\<close>, two below the maximum
  sequence value \<open>0xffffffff\<close>.
\<close>

theorem rbf_sequence:
  assumes "createPsbt env pubKey net addr outs satsPerByte mode True = Inr psbt"
  shows "(\<forall>(inp, seq) \<in> set (psbt_inputs psbt). seq = 0xfffffffd)
         \<and> (0xfffffffd :: nat) = DEFAULT_SEQUENCE - 2"
proof -
  obtain unspent :: UnspentUTXOs and psbt0 :: Psbt where
    a: "add_inputs env pubKey net addr True
          (zip [0 ..< length (spendableUTXOs unspent)] (spendableUTXOs unspent)) new_Psbt
        = Inr psbt0"
    and p: "psbt_inputs psbt = psbt_inputs psbt0"
  proof (rule createPsbt_Inr [OF assms])
    fix unspent :: UnspentUTXOs and psbt0 :: Psbt and outs
    assume "add_inputs env pubKey net addr True
          (zip [0 ..< length (spendableUTXOs unspent)] (spendableUTXOs unspent)) new_Psbt
        = Inr psbt0"
      and "psbt = foldl addOutput psbt0 outs"
    then show thesis by (intro that [of unspent psbt0]) (simp_all add: foldl_addOutput)
  qed
  have "\<forall>x \<in> set (psbt_inputs psbt0). snd x = 0xfffffffd"
    using add_inputs_sequence [of env pubKey net addr 0 "spendableUTXOs unspent"
        new_Psbt psbt0] a
    by (simp add: new_Psbt_def)
  then show ?thesis by (auto simp: p DEFAULT_SEQUENCE_def)
qed

theorem rbf_sequence_witness:
  "createPsbt
     (demo_env [demo_utxo ''aa'' 0 1000 ''funding'', demo_utxo ''bb'' 1 5000 ''other'']
               [demo_utxo ''cc'' 2 10000 ''funding''])
     ''02ab'' ''testnet'' ''funding'' [\<lparr>to_address = ''dest'', cardinals = 2000\<rparr>] 1 Off True
   = Inr \<lparr>psbt_inputs = [(SegwitInput ''aa'' 0 [0, 20, 171] 1000 None, 4294967293)],
          psbt_outputs = [\<lparr>to_address = ''dest'', cardinals = 2000\<rparr>,
                          \<lparr>to_address = ''funding'', cardinals = 13900\<rparr>]\<rparr>
   \<and> map snd [(SegwitInput ''aa'' 0 [0, 20, 171] 1000 None, 4294967293 :: nat)]
       = [DEFAULT_SEQUENCE - 2]"
  using rbf_sequence [OF demo_run_rbf] demo_run_rbf by simp

text \<open>
  The sequence number is set at the UTXO's position in \<open>spendableUTXOs\<close>, not at the
  input's position in the PSBT: once a UTXO at another address has been skipped, the
  next added input is beyond that index for the library, and the call fails.
\<close>

lemma rbf_after_skipped_utxo:
  "createPsbt
     (demo_env [demo_utxo ''bb'' 1 5000 ''other'', demo_utxo ''aa'' 0 1000 ''funding''] [])
     ''02ab'' ''testnet'' ''funding'' [\<lparr>to_address = ''dest'', cardinals = 2000\<rparr>] 1 On True
   = Inl InputIndexTooHigh"
  by (simp add: createPsbt_def demo_env_def demo_utxo_def processInput_def
        generateSegwitInput_def spread_sighashType_def new_Psbt_def addInput_def setInputSequence_def addOutput_def
        DEFAULT_SEQUENCE_def unhex_def upt_conv_Cons)

text \<open>
  C10. For every PSBT that \<open>createPsbt\<close> returns: its inputs spend, in order, exactly
  the spendable UTXOs whose \<open>scriptPubKey\<close> address is the funding address, so no UTXO
  at another address and no unspendable UTXO is an input, whatever \<open>safeMode\<close> is; and
  the input sum, of which the fee and the requested outputs are taken to test the balance
  and to compute the change, is the sum of all spendable UTXOs plus, when \<open>safeMode\<close>
  is "off", the sum of the unspendable ones.
\<close>

theorem createPsbt_inputs:
  assumes "createPsbt env pubKey net addr outs satsPerByte mode enableRBF = Inr psbt"
  shows "\<exists>unspent remainingBalance.
           fetchUnspentUTXOs env addr net (mode = Off) = Inr unspent
           \<and> map (\<lambda>(inp, seq). (input_hash inp, input_index inp)) (psbt_inputs psbt)
               = map (\<lambda>u. (txid u, n u))
                   (filter (\<lambda>u. spk_address (scriptPubKey u) = addr)
                      (spendableUTXOs unspent))
           \<and> remainingBalance =
               sum_list (map sats (spendableUTXOs unspent))
               + (if mode = Off then sum_list (map sats (unspendableUTXOs unspent)) else 0)
               - sum_list (map cardinals outs)
               - estimateFee env (psbt\<lparr>psbt_outputs := []\<rparr>) satsPerByte net
           \<and> 0 \<le> remainingBalance
           \<and> psbt_outputs psbt =
               outs @
               (if remainingBalance > MINIMUM_AMOUNT_IN_SATS env
                then [\<lparr>to_address = addr, cardinals = remainingBalance\<rparr>] else [])"
proof -
  from assms obtain unspent psbt0 where
    f: "fetchUnspentUTXOs env addr net (mode = Off) = Inr unspent"
    and a: "add_inputs env pubKey net addr enableRBF
          (zip [0 ..< length (spendableUTXOs unspent)] (spendableUTXOs unspent)) new_Psbt
        = Inr psbt0"
    and r: "0 \<le> sum_list (map sats (spendableUTXOs unspent
                               @ (if mode = Off then unspendableUTXOs unspent else [])))
          - sum_list (map cardinals outs) - estimateFee env psbt0 satsPerByte net"
    and p: "psbt =
     foldl addOutput psbt0
       (if sum_list (map sats (spendableUTXOs unspent
                                @ (if mode = Off then unspendableUTXOs unspent else [])))
           - sum_list (map cardinals outs) - estimateFee env psbt0 satsPerByte net
           > MINIMUM_AMOUNT_IN_SATS env
        then outs @
             [\<lparr>to_address = addr,
               cardinals =
                 sum_list (map sats (spendableUTXOs unspent
                                      @ (if mode = Off then unspendableUTXOs unspent else [])))
                 - sum_list (map cardinals outs) - estimateFee env psbt0 satsPerByte net\<rparr>]
        else outs)"
    by (rule createPsbt_Inr)
  from add_inputs_outpoints [OF a]
  have o0: "map (\<lambda>(inp, s). (input_hash inp, input_index inp)) (psbt_inputs psbt0) =
        map (\<lambda>(i, u). (txid u, n u))
          (filter (\<lambda>(i, u). spk_address (scriptPubKey u) = addr)
             (zip [0 ..< length (spendableUTXOs unspent)] (spendableUTXOs unspent)))"
    and out0: "psbt_outputs psbt0 = []"
    by (simp_all add: new_Psbt_def)
  have zipf: "map (\<lambda>(i, u). (txid u, n u))
          (filter (\<lambda>(i, u). spk_address (scriptPubKey u) = addr) (zip [k ..< k + length us] us))
        = map (\<lambda>u. (txid u, n u)) (filter (\<lambda>u. spk_address (scriptPubKey u) = addr) us)"
    for k and us :: "UTXO list"
  proof (induction us arbitrary: k)
    case Nil
    show ?case by simp
  next
    case (Cons u us)
    have "zip [k ..< k + length (u # us)] (u # us) =
          (k, u) # zip [Suc k ..< Suc k + length us] us"
      by (simp add: upt_conv_Cons del: upt_Suc)
    with Cons [of "Suc k"] show ?case by simp
  qed
  have ins: "psbt_inputs psbt = psbt_inputs psbt0"
    and outs: "psbt_outputs psbt = psbt_outputs psbt0 @
       (if sum_list (map sats (spendableUTXOs unspent
                                @ (if mode = Off then unspendableUTXOs unspent else [])))
           - sum_list (map cardinals outs) - estimateFee env psbt0 satsPerByte net
           > MINIMUM_AMOUNT_IN_SATS env
        then outs @
             [\<lparr>to_address = addr,
               cardinals =
                 sum_list (map sats (spendableUTXOs unspent
                                      @ (if mode = Off then unspendableUTXOs unspent else [])))
                 - sum_list (map cardinals outs) - estimateFee env psbt0 satsPerByte net\<rparr>]
        else outs)"
    unfolding p by (simp_all only: foldl_addOutput)
  have base: "psbt\<lparr>psbt_outputs := []\<rparr> = psbt0"
    using ins out0 by simp
  define remainingBalance where "remainingBalance =
               sum_list (map sats (spendableUTXOs unspent))
               + (if mode = Off then sum_list (map sats (unspendableUTXOs unspent)) else 0)
               - sum_list (map cardinals outs)
               - estimateFee env (psbt\<lparr>psbt_outputs := []\<rparr>) satsPerByte net"
  have rb: "remainingBalance =
        sum_list (map sats (spendableUTXOs unspent
                             @ (if mode = Off then unspendableUTXOs unspent else [])))
        - sum_list (map cardinals outs) - estimateFee env psbt0 satsPerByte net"
    unfolding remainingBalance_def base by simp
  have "map (\<lambda>(inp, seq). (input_hash inp, input_index inp)) (psbt_inputs psbt)
        = map (\<lambda>u. (txid u, n u))
            (filter (\<lambda>u. spk_address (scriptPubKey u) = addr) (spendableUTXOs unspent))"
    using o0 zipf [of 0 "spendableUTXOs unspent"] by (simp add: ins)
  moreover have "0 \<le> remainingBalance" using r unfolding rb .
  moreover have "psbt_outputs psbt =
               outs @
               (if remainingBalance > MINIMUM_AMOUNT_IN_SATS env
                then [\<lparr>to_address = addr, cardinals = remainingBalance\<rparr>] else [])"
    unfolding outs out0 rb [symmetric] by simp
  ultimately show ?thesis using f remainingBalance_def by blast
qed

theorem createPsbt_inputs_witness:
  "createPsbt
     (demo_env [demo_utxo ''aa'' 0 1000 ''funding'', demo_utxo ''bb'' 1 5000 ''other'']
               [demo_utxo ''cc'' 2 10000 ''funding''])
     ''02ab'' ''testnet'' ''funding'' [\<lparr>to_address = ''dest'', cardinals = 2000\<rparr>] 1 Off True
   = Inr \<lparr>psbt_inputs = [(SegwitInput ''aa'' 0 [0, 20, 171] 1000 None, 4294967293)],
          psbt_outputs = [\<lparr>to_address = ''dest'', cardinals = 2000\<rparr>,
                          \<lparr>to_address = ''funding'', cardinals = 13900\<rparr>]\<rparr>
   \<and> map (\<lambda>(inp, seq). (input_hash inp, input_index inp))
     [(SegwitInput ''aa'' 0 [0, 20, 171] 1000 None, 4294967293 :: nat)] = [(''aa'', 0)]
   \<and> [\<lparr>to_address = ''dest'', cardinals = 2000\<rparr>,
       \<lparr>to_address = ''funding'', cardinals = 13900\<rparr>]
     = [\<lparr>to_address = ''dest'', cardinals = 2000\<rparr>]
       @ [\<lparr>to_address = ''funding'', cardinals = 1000 + 5000 + 10000 - 2000 - 100\<rparr>]"
  using createPsbt_inputs [OF demo_run_rbf] demo_run_rbf by simp


section \<open>Properties of the transfer validator\<close>

lemma getBalances_found:
  assumes "(case datasource of Some d \<Rightarrow> d | None \<Rightarrow> JsonRpcDatasource net) addr
           = Inr entries"
      and "find (\<lambda>b. tick b = tk) entries = Some r"
  shows "getBalances JsonRpcDatasource addr tk datasource net =
         Inr \<lparr>total = total r, available = available r, transferable = transferable r\<rparr>"
  using assms by (simp add: getBalances_def)

lemma getBalances_Inl_iff:
  "getBalances JsonRpcDatasource addr tk datasource net = Inl e \<longleftrightarrow>
   (case datasource of Some d \<Rightarrow> d | None \<Rightarrow> JsonRpcDatasource net) addr = Inl e
   \<or> (\<exists>entries.
         (case datasource of Some d \<Rightarrow> d | None \<Rightarrow> JsonRpcDatasource net) addr
           = Inr entries
         \<and> find (\<lambda>b. tick b = tk) entries = None \<and> e = NoBalance)"
  by (cases "(case datasource of Some d \<Rightarrow> d | None \<Rightarrow> JsonRpcDatasource net) addr")
     (auto simp: getBalances_def split: option.splits)

text \<open>
  C8. For every holder whose record for the requested ticker (the first one in the
  ledger's answer) is \<open>r\<close>: \<open>hasEnoughTransferableBalance\<close> returns
  \<open>transferable r >= amount\<close> and \<open>hasEnoughOverallBalance\<close> returns
  \<open>available r >= amount\<close>; and either of them fails exactly when \<open>getBalances\<close>
  fails, with the same error (the data source's own, or \<open>NoBalance\<close> when the answer
  has no record for the ticker).
\<close>

theorem balance_gating:
  fixes amount :: "'a::linorder"
  shows
  "((case datasource of Some d \<Rightarrow> d | None \<Rightarrow> JsonRpcDatasource net) addr = Inr entries
     \<and> find (\<lambda>b. tick b = tk) entries = Some r
     \<longrightarrow> hasEnoughTransferableBalance JsonRpcDatasource addr amount tk datasource net
           = Inr (transferable r \<ge> amount)
         \<and> hasEnoughOverallBalance JsonRpcDatasource addr amount tk datasource net
           = Inr (available r \<ge> amount))
   \<and> (hasEnoughTransferableBalance JsonRpcDatasource addr amount tk datasource net = Inl e
        \<longleftrightarrow> getBalances JsonRpcDatasource addr tk datasource net = Inl e)
   \<and> (hasEnoughOverallBalance JsonRpcDatasource addr amount tk datasource net = Inl e
        \<longleftrightarrow> getBalances JsonRpcDatasource addr tk datasource net = Inl e)"
proof (intro conjI impI)
  assume a: "(case datasource of Some d \<Rightarrow> d | None \<Rightarrow> JsonRpcDatasource net) addr
               = Inr entries
             \<and> find (\<lambda>b. tick b = tk) entries = Some r"
  then have g: "getBalances JsonRpcDatasource addr tk datasource net =
         Inr \<lparr>total = total r, available = available r, transferable = transferable r\<rparr>"
    by (simp add: getBalances_found)
  show "hasEnoughTransferableBalance JsonRpcDatasource addr amount tk datasource net
           = Inr (transferable r \<ge> amount)"
    by (simp add: hasEnoughTransferableBalance_def g)
  show "hasEnoughOverallBalance JsonRpcDatasource addr amount tk datasource net
           = Inr (available r \<ge> amount)"
    by (simp add: hasEnoughOverallBalance_def g)
next
  show "hasEnoughTransferableBalance JsonRpcDatasource addr amount tk datasource net = Inl e
        \<longleftrightarrow> getBalances JsonRpcDatasource addr tk datasource net = Inl e"
    by (cases "getBalances JsonRpcDatasource addr tk datasource net")
       (simp_all add: hasEnoughTransferableBalance_def)
  show "hasEnoughOverallBalance JsonRpcDatasource addr amount tk datasource net = Inl e
        \<longleftrightarrow> getBalances JsonRpcDatasource addr tk datasource net = Inl e"
    by (cases "getBalances JsonRpcDatasource addr tk datasource net")
       (simp_all add: hasEnoughOverallBalance_def)
qed

theorem balance_gating_witness:
  "hasEnoughTransferableBalance demo_JsonRpcDatasource ''holder'' 600 ''ordi'' None ''testnet''
     = Inr False
   \<and> hasEnoughOverallBalance demo_JsonRpcDatasource ''holder'' 600 ''ordi'' None ''testnet''
     = Inr True
   \<and> hasEnoughOverallBalance demo_JsonRpcDatasource ''holder'' 600 ''pepe'' None ''testnet''
     = Inl NoBalance"
proof -
  have g: "getBalances demo_JsonRpcDatasource ''holder'' ''pepe'' None ''testnet''
           = Inl NoBalance"
    by (simp add: getBalances_def demo_JsonRpcDatasource_def)
  show ?thesis
    using balance_gating [where datasource = None
        and JsonRpcDatasource = demo_JsonRpcDatasource and net = "''testnet''"
        and addr = "''holder''" and tk = "''ordi''" and amount = 600 and e = NoBalance
        and entries = "[\<lparr>total = 5, available = 5, transferable = 0, tick = ''sats''\<rparr>,
          \<lparr>total = 1000, available = 700, transferable = 500, tick = ''ordi''\<rparr>]"
        and r = "\<lparr>total = 1000, available = 700, transferable = 500, tick = ''ordi''\<rparr>"]
      balance_gating [where datasource = None
        and JsonRpcDatasource = demo_JsonRpcDatasource and net = "''testnet''"
        and addr = "''holder''" and tk = "''pepe''" and amount = 600 and e = NoBalance
        and entries = "[]"
        and r = "\<lparr>total = 1000, available = 700, transferable = 500, tick = ''ordi''\<rparr>"] g
    by (simp add: demo_JsonRpcDatasource_def)
qed


section \<open>Properties of the orchestrator\<close>

subsection \<open>The recovery quote\<close>

lemma build_recoverAmount:
  assumes "suitableUnspent this = Some u" and "payment this = Some pay" and "recovery this"
      and "build env this = (r, this')"
  shows "recoverAmount this' = sats u - fee (base this)"
  using assms
  by (auto simp: build_def build_inputs_outputs_def Let_def split: prod.splits)

lemma build_recovery_outputs:
  assumes "recovery this"
  shows "outputs (base (build_inputs_outputs this u pay)) =
           [\<lparr>out_address = or_else (changeAddress (base this)) (address (base this)),
             out_value = sats u - fee (base this)\<rparr>]
         \<and> recoverAmount (build_inputs_outputs this u pay) = sats u - fee (base this)"
  using assms by (simp add: build_inputs_outputs_def Let_def)

lemma preview_off:
  "\<exists>this'. preview env False this = (Inr (), this') \<and> recoverAmount this' = recoverAmount this"
  by (simp add: preview_def)

lemma preview_on_recovery:
  assumes "recovery this" and "payment this = Some pay"
      and "preview env True this = (Inr x, this')"
  shows "\<exists>u rest. getUnspents env (commitAddress this) = Inr (u # rest)
           \<and> recoverAmount this' = sats u - fee (base this)"
proof (cases "getUnspents env (commitAddress this)")
  case (Inl e)
  with assms show ?thesis by (simp add: preview_def Let_def)
next
  case (Inr spendable)
  show ?thesis
  proof (cases spendable)
    case Nil
    with Inr assms show ?thesis by (simp add: preview_def Let_def)
  next
    case (Cons u rest)
    with Inr assms have
      b: "build env (this\<lparr>previewMode := True, suitableUnspent := Some u, ready := True\<rparr>)
          = (Inr x, this')"
      by (simp add: preview_def Let_def)
    have "recoverAmount this' = sats u - fee (base this)"
      using build_recoverAmount [OF _ _ _ b, of u pay] assms by simp
    with Inr Cons show ?thesis by simp
  qed
qed

lemma calculateNetworkFeeUsingPreviewMode_recovery:
  assumes "recovery this" and "payment this = Some pay"
      and "calculateNetworkFeeUsingPreviewMode env this = (Inr x, this')"
  shows "\<exists>u rest. getUnspents env (commitAddress this) = Inr (u # rest)
           \<and> recoverAmount this' = sats u - fee (base this)"
proof -
  obtain r1 this1 where p1: "preview env True this = (r1, this1)"
    by (cases "preview env True this")
  show ?thesis
  proof (cases r1)
    case (Inl e)
    with p1 assms(3) show ?thesis by (simp add: calculateNetworkFeeUsingPreviewMode_def)
  next
    case (Inr y)
    with p1 assms(3) have
      p2: "preview env False (this1\<lparr>base := calculateNetworkFee env (base this1)\<rparr>)
           = (Inr x, this')"
      by (simp add: calculateNetworkFeeUsingPreviewMode_def)
    from preview_off [of env "this1\<lparr>base := calculateNetworkFee env (base this1)\<rparr>"] p2
    have "recoverAmount this' = recoverAmount this1" by auto
    with preview_on_recovery [OF assms(1,2) p1 [unfolded Inr]] show ?thesis by auto
  qed
qed

lemma buildWitness_keeps:
  "buildWitness env this = Inr this' \<Longrightarrow>
   base this' = base this \<and> recovery this' = recovery this"
  by (auto simp: buildWitness_def and_then_def split: sum.splits)

lemma buildTaprootTree_keeps:
  "buildTaprootTree env this = Inr this' \<Longrightarrow>
   base this' = base this \<and> recovery this' = recovery this"
  by (auto simp: buildTaprootTree_def and_then_def split: sum.splits option.splits
        dest: buildWitness_keeps)

text \<open>
  What \<open>recover\<close> reports, whenever it returns: the value \<open>V\<close> of the first spendable
  UTXO at the commit address, minus the fee that the \<open>Inscriber\<close> held when \<open>recover\<close>
  was called, minus the recovery fee \<open>F\<close> that it reports.
\<close>

lemma recover_report:
  assumes "Inscriber_recover env this = (Inr res, this')"
  shows "\<exists>(pay :: Payment) (u :: UTXO) rest.
           getUnspents env (pay_address pay) = Inr (u # rest)
           \<and> reported_recoverAmount res = sats u - fee (base this) - recoverFee res"
proof -
  let ?this1 = "this\<lparr>recovery := True\<rparr>"
  from assms obtain this2 where t: "buildTaprootTree env ?this1 = Inr this2"
    by (cases "buildTaprootTree env ?this1") (simp_all add: Inscriber_recover_def Let_def)
  from buildTaprootTree_keeps [OF t] have k: "base this2 = base this" "recovery this2"
    by simp_all
  from assms t obtain pay where
    c: "createTransaction_p2tr env (Buffer_from (Str (xKey (base this2))) Hex)
          (network (base this2)) (taprootTree this2) (getRecoveryRedeemScript this2) = Inr pay"
    by (cases "createTransaction_p2tr env (Buffer_from (Str (xKey (base this2))) Hex)
          (network (base this2)) (taprootTree this2) (getRecoveryRedeemScript this2)")
       (simp_all add: Inscriber_recover_def Let_def)
  let ?this3 = "this2\<lparr>payment := Some pay, commitAddress := pay_address pay\<rparr>"
  obtain r4 this4 where f: "calculateNetworkFeeUsingPreviewMode env ?this3 = (r4, this4)"
    by (cases "calculateNetworkFeeUsingPreviewMode env ?this3")
  from assms t c f obtain x where r4: "r4 = Inr x"
    by (cases r4) (simp_all add: Inscriber_recover_def Let_def)
  from assms t c f r4 have res:
    "reported_recoverAmount res = recoverAmount this4 - fee (base this4)"
    "recoverFee res = fee (base this4)"
    by (auto simp: Inscriber_recover_def Let_def)
  from calculateNetworkFeeUsingPreviewMode_recovery [OF _ _ f [unfolded r4], of pay] k
  obtain u rest where "getUnspents env (pay_address pay) = Inr (u # rest)"
    and "recoverAmount this4 = sats u - fee (base this)"
    by auto
  with res show ?thesis by (intro exI [of _ pay] exI [of _ u] exI [of _ rest]) simp
qed

lemma recover_report_fresh:
  assumes "Inscriber_recover env this = (Inr res, this')" and "fee (base this) = 0"
  shows "\<exists>(pay :: Payment) (u :: UTXO) rest.
           getUnspents env (pay_address pay) = Inr (u # rest)
           \<and> reported_recoverAmount res = sats u - recoverFee res"
  using recover_report [OF assms(1)] assms(2) by simp

text \<open>
  C1. For an \<open>Inscriber\<close> funded by a UTXO of value \<open>V\<close> with recovery fee \<open>F\<close>,
  \<open>recover\<close> is to report \<open>V - F\<close>, and the next \<open>build\<close> to emit the one output
  \<open>V - F\<close> to the change address. The one output of \<open>build\<close> is as stated
  (\<open>build_recovery_outputs\<close>), and so is the report of \<open>recover\<close> on an \<open>Inscriber\<close>
  whose fee is still 0 (\<open>recover_report_fresh\<close>), which is what the source's comment
  relies on ("the first time, fee is 0"). On an \<open>Inscriber\<close> that already holds a fee
  the report is short by that fee: below, with \<open>V = 10000\<close> and \<open>F = 150\<close>, the first
  call of \<open>recover\<close> reports 9850 and a second call on the same object reports 9700.
\<close>

theorem recover_twice:
  "fst (Inscriber_recover demo_inscriber_env demo_inscriber)
     = Inr \<lparr>recoverAddress = ''change'', reported_recoverAmount = 10000 - 150,
            recoverFee = 150\<rparr>
   \<and> fst (Inscriber_recover demo_inscriber_env
            (snd (Inscriber_recover demo_inscriber_env demo_inscriber)))
     = Inr \<lparr>recoverAddress = ''change'', reported_recoverAmount = 10000 - 150 - 150,
            recoverFee = 150\<rparr>"
  by code_simp

subsection \<open>The dust limit\<close>

text \<open>
  C2, as stated: when the required amount is below the minimum, \<open>isReady\<close> fails with
  \<open>BelowDustLimit\<close>. On the committed \<open>Inscriber\<close> below the required amount is 250,
  the minimum is 600, and \<open>isReady\<close> returns \<open>false\<close>: it catches the error of
  \<open>fetchAndSelectSuitableUnspent\<close>.
\<close>

theorem dust_enforcement_counterexample:
  "required_amount False None demo_committed = 250
   \<and> MINIMUM_AMOUNT_IN_SATS demo_inscriber_env = 600
   \<and> isReady demo_inscriber_env False None demo_committed = (Inr False, demo_committed)"
  by (simp add: isReady_def fetchAndSelectSuitableUnspent_def isBuilt_def
        restrictUsageInPreviewMode_def required_amount_def demo_committed_def
        demo_inscriber_def demo_inscriber_env_def)

text \<open>
  C2, amended. For every \<open>Inscriber\<close> that is built (a commit address and a non-zero
  fee) and not in preview mode, whose required amount (\<open>outputAmount - fee\<close> in recovery
  mode, otherwise the custom amount when strict checking is skipped and one is given, or
  \<open>outputAmount + fee\<close>) is below the minimum: \<open>fetchAndSelectSuitableUnspent\<close> fails
  with \<open>BelowDustLimit\<close>, and \<open>isReady\<close> catches that error and returns the \<open>ready\<close>
  flag as it stands, \<open>false\<close> unless the \<open>Inscriber\<close> was ready already. Neither
  changes the \<open>Inscriber\<close>.
\<close>

theorem dust_enforcement:
  assumes "\<not> previewMode this" and "\<not> falsy_string (commitAddress this)"
      and "fee (base this) \<noteq> 0"
      and "required_amount skipStrictSatsCheck customAmount this < MINIMUM_AMOUNT_IN_SATS env"
  shows "fetchAndSelectSuitableUnspent env skipStrictSatsCheck customAmount this
           = (Inl BelowDustLimit, this)
         \<and> isReady env skipStrictSatsCheck customAmount this = (Inr (ready this), this)"
  using assms
  by (simp add: fetchAndSelectSuitableUnspent_def isReady_def isBuilt_def
        restrictUsageInPreviewMode_def)

theorem dust_enforcement_witness:
  "fetchAndSelectSuitableUnspent demo_inscriber_env False None demo_committed
     = (Inl BelowDustLimit, demo_committed)
   \<and> isReady demo_inscriber_env False None demo_committed = (Inr False, demo_committed)"
proof -
  have "\<not> previewMode demo_committed" "\<not> falsy_string (commitAddress demo_committed)"
    "fee (base demo_committed) \<noteq> 0" "ready demo_committed = False"
    "required_amount False None demo_committed < MINIMUM_AMOUNT_IN_SATS demo_inscriber_env"
    by (simp_all add: required_amount_def demo_committed_def demo_inscriber_def
          demo_inscriber_env_def)
  with dust_enforcement [of demo_committed False None demo_inscriber_env]
  show ?thesis by simp
qed

end
